theory Spec2Isabelle
  imports Main "HOL-Library.Char_ord" "HOL-Library.List_Lexorder" "HOL-Library.Multiset"
begin

section \<open>Strings and paths\<close>

text \<open>
  A Python string is modelled as a \<open>string\<close> whose characters are the code points
  below 256. On these \<open>str.lower\<close> maps A..Z and the letters \<open>0xC0..0xDE\<close> other
  than the multiplication sign \<open>0xD7\<close> to the code point 32 above and leaves every
  other character alone; \<open>str.isspace\<close> holds of \<open>0x09..0x0D\<close>, \<open>0x1C..0x20\<close>,
  \<open>0x85\<close> and \<open>0xA0\<close>, and \<open>str.strip\<close> removes such characters from both ends.
  Strings compare lexicographically by code point, as in Python.
\<close>

definition lower_char :: "char \<Rightarrow> char" where
  "lower_char c =
     (if (CHR ''A'' \<le> c \<and> c \<le> CHR ''Z'') \<or>
         (CHR 0xC0 \<le> c \<and> c \<le> CHR 0xDE \<and> c \<noteq> CHR 0xD7)
      then char_of (of_char c + (32::nat)) else c)"

definition lower :: "string \<Rightarrow> string" where
  "lower s = map lower_char s"

definition isspace :: "char \<Rightarrow> bool" where
  "isspace c = (c \<in> set [CHR 0x09, CHR 0x0A, CHR 0x0B, CHR 0x0C, CHR 0x0D,
                           CHR 0x1C, CHR 0x1D, CHR 0x1E, CHR 0x1F, CHR 0x20,
                           CHR 0x85, CHR 0xA0])"

definition strip :: "string \<Rightarrow> string" where
  "strip s = rev (dropWhile isspace (rev (dropWhile isspace s)))"

text \<open>\<open>str.rfind\<close>: the highest index of the character, or \<open>-1\<close>.\<close>

fun rfind :: "char \<Rightarrow> string \<Rightarrow> int" where
  "rfind c [] = -1"
| "rfind c (x # xs) =
     (let r = rfind c xs in if 0 \<le> r then r + 1 else if x = c then 0 else -1)"

text \<open>
  The \<open>os.path\<close> functions follow CPython's \<open>posixpath\<close> (separator \<open>/\<close>, no
  alternative separator, extension separator \<open>.\<close>).

  \<^verbatim>\<open>
  def basename(p):
      i = p.rfind('/') + 1
      return p[i:]
  \<close>
\<close>

definition basename :: "string \<Rightarrow> string" where
  "basename p = drop (nat (rfind CHR ''/'' p + 1)) p"

text \<open>
  \<^verbatim>\<open>
  def join(a, b):
      if b.startswith('/'): path = b
      elif not a or a.endswith('/'): path = a + b
      else: path = a + '/' + b
  \<close>
\<close>

definition startswith_sep :: "string \<Rightarrow> bool" where
  "startswith_sep b = (case b of [] \<Rightarrow> False | c # _ \<Rightarrow> c = CHR ''/'')"

definition endswith_sep :: "string \<Rightarrow> bool" where
  "endswith_sep a = (case rev a of [] \<Rightarrow> False | c # _ \<Rightarrow> c = CHR ''/'')"

definition join :: "string \<Rightarrow> string \<Rightarrow> string" where
  "join a b =
     (if startswith_sep b then b
      else if a = [] \<or> endswith_sep a then a @ b
      else a @ ''/'' @ b)"

text \<open>
  \<^verbatim>\<open>
  def _splitext(p, sep, altsep, extsep):
      sepIndex = p.rfind(sep)
      dotIndex = p.rfind(extsep)
      if dotIndex > sepIndex:
          # skip all leading dots
          filenameIndex = sepIndex + 1
          while filenameIndex < dotIndex:
              if p[filenameIndex:filenameIndex+1] != extsep:
                  return p[:dotIndex], p[dotIndex:]
              filenameIndex += 1
      return p, p[:0]
  \<close>
  The loop is \<open>splitext_loop\<close>; it returns \<open>None\<close> when it falls through.
\<close>

function splitext_loop :: "string \<Rightarrow> nat \<Rightarrow> nat \<Rightarrow> (string \<times> string) option" where
  "splitext_loop p filenameIndex dotIndex =
     (if filenameIndex < dotIndex then
        (if take 1 (drop filenameIndex p) \<noteq> ''.'' then Some (take dotIndex p, drop dotIndex p)
         else splitext_loop p (filenameIndex + 1) dotIndex)
      else None)"
  by pat_completeness auto
termination
  by (relation "measure (\<lambda>(p, filenameIndex, dotIndex). dotIndex - filenameIndex)") auto

declare splitext_loop.simps [simp del]

definition splitext :: "string \<Rightarrow> string \<times> string" where
  "splitext p =
     (let sepIndex = rfind CHR ''/'' p;
          dotIndex = rfind CHR ''.'' p
      in if dotIndex > sepIndex then
           (case splitext_loop p (nat (sepIndex + 1)) (nat dotIndex) of
              Some r \<Rightarrow> r
            | None \<Rightarrow> (p, []))
         else (p, []))"

text \<open>Decimal printing, for the \<open>M:SS\<close> duration strings (\<open>f"{m}:{s:02d}"\<close>).\<close>

function str_nat :: "nat \<Rightarrow> string" where
  "str_nat n =
     (if n < 10 then [char_of (48 + n)]
      else str_nat (n div 10) @ [char_of (48 + n mod 10)])"
  by pat_completeness auto
termination
  by (relation "measure id") auto

declare str_nat.simps [simp del]

definition fmt_02d :: "nat \<Rightarrow> string" where
  "fmt_02d n = (if n < 10 then CHR ''0'' # str_nat n else str_nat n)"

definition fmt_duration :: "nat \<Rightarrow> string" where
  "fmt_duration secs = str_nat (secs div 60) @ '':'' @ fmt_02d (secs mod 60)"

section \<open>Data model\<close>

text \<open>Exceptions are values; a handler's outcome is \<open>Some e\<close> when \<open>e\<close> escapes it.\<close>

datatype exn =
  AttributeError | IndexError | TypeError | SpotifyException | RequestException
  | PygameError | OSError | MutagenError

definition BLACKLIST_EXTENSIONS :: "string list" where
  "BLACKLIST_EXTENSIONS = [''.jpg'', ''.jpeg'', ''.png'', ''.gif'']"

text \<open>One item of \<open>os.walk(directory)\<close>: \<open>(root, dirs, files)\<close>.\<close>

type_synonym walk_entry = "string \<times> string list \<times> string list"

text \<open>
  What \<open>MutagenFile(filepath)\<close> gives \<open>get_file_metadata\<close>: an exception, a falsy
  value, or a file object with its tags (frame name to \<open>str(frame)\<close>) and the length of
  \<open>meta.info\<close> in whole seconds.
\<close>

datatype mutagen_file =
  MutagenRaises exn
  | MutagenFalsy
  | MutagenMeta "(string \<times> string) list option" "nat option"

text \<open>A track of a search response, and the object \<open>sp.track\<close> returns.\<close>

record track =
  track_uri :: string
  track_name :: string
  track_artists :: "string list"
  track_album :: string
  track_duration_ms :: nat
  track_preview_url :: "string option"
  track_external_url :: string

record track_info =
  info_type :: string
  info_uri :: string
  info_name :: string

text \<open>
  The children of \<open>results_frame\<close>: the red "No results found." label, one row per track
  (a radio button whose value is the track's URI, a Visit button, and preview buttons
  when the track has a preview URL), and the "Add to Playlist" button.
\<close>

datatype widget = NoResultsLabel | TrackRow track | AddButton

text \<open>Message boxes, by title; the "Done" box carries the skipped list it prints.\<close>

datatype message = ShowError string | ShowInfo string | ShowDone "string list"

text \<open>Requests made through the catalog client, each with how it ended.\<close>

datatype api_call =
  CurrentUser
  | UserPlaylistCreate string string
  | PlaylistAddItems string "string list"
  | TrackLookup string
  | Search string nat

datatype api_result = Raised exn | Returned | ReturnedId string

type_synonym api_log = "(api_call \<times> api_result) list"

text \<open>
  The answers of the outside world to the calls one event handler makes; every handler
  makes each of these calls at most once. \<open>mutagen_read\<close> is what \<open>MutagenFile\<close>
  gives for the current file, \<open>search_result\<close> the \<open>tracks.items\<close> list of
  \<open>sp.search\<close>, \<open>current_user_result\<close> the user id, \<open>playlist_create_result\<close> the id
  of the new playlist, \<open>track_result\<close> the object \<open>sp.track\<close> returns,
  \<open>add_items_result\<close> the exception of \<open>sp.playlist_add_items\<close> if it raises one,
  likewise \<open>remove_result\<close> for \<open>os.remove\<close>, \<open>download_result\<close> for the preview
  download and \<open>load_result\<close> for loading and playing a file in the mixer;
  \<open>temp_name\<close> is the name of the temporary file the download is written to. A request
  that raises changes nothing in the catalog.
\<close>

record env =
  mutagen_read :: mutagen_file
  search_result :: "exn + track list"
  current_user_result :: "exn + string"
  playlist_create_result :: "exn + string"
  track_result :: "exn + track_info option"
  add_items_result :: "exn option"
  remove_result :: "exn option"
  download_result :: "exn option"
  temp_name :: string
  load_result :: "exn option"

text \<open>
  The fields of \<open>SpotifyPlaylistApp\<close>. \<open>sp\<close> is \<open>False\<close> when \<open>self.sp\<close> is
  \<open>None\<close>. An attribute that \<open>show_file_prompt\<close> or \<open>search_spotify\<close> creates
  (\<open>query_var\<close>, \<open>url_var\<close>, \<open>track_var\<close>, \<open>results_frame\<close>) is \<open>None\<close> until then.
  \<open>file_prompt_shown\<close> tells whether \<open>main_frame\<close> holds the file prompt or the initial
  screen. The last four fields are the world the program acts on: the stream
  \<open>pygame.mixer.music\<close> is playing, the files that exist, the catalog requests made and the
  message boxes shown.
\<close>

record app =
  sp :: bool
  selected_directory :: "string option"
  playlist_id :: "string option"
  playlist_name :: "string option"
  audio_files :: "string list"
  skipped_songs :: "string list"
  current_index :: nat
  current_filepath :: "string option"
  local_title :: "string option"
  local_artist :: "string option"
  local_duration_str :: "string option"
  preview_temp_path :: "string option"
  query_var :: "string option"
  url_var :: "string option"
  track_var :: "string option"
  results_frame :: "widget list option"
  file_prompt_shown :: bool
  mixer_music :: "string option"
  disk :: "string set"
  api_log :: api_log
  messages :: "message list"

text \<open>\<open>__init__\<close>: \<open>sp_ok\<close> is \<open>False\<close> when authentication raised \<open>SpotifyOauthError\<close>.\<close>

definition init_app :: "bool \<Rightarrow> string set \<Rightarrow> app" where
  "init_app sp_ok files =
     \<lparr> sp = sp_ok, selected_directory = None, playlist_id = None, playlist_name = None,
       audio_files = [], skipped_songs = [], current_index = 0, current_filepath = None,
       local_title = None, local_artist = None, local_duration_str = None,
       preview_temp_path = None, query_var = None, url_var = None, track_var = None,
       results_frame = None, file_prompt_shown = False, mixer_music = None, disk = files,
       api_log = [],
       messages = (if sp_ok then [] else [ShowError ''Spotify Auth Error'']) \<rparr>"

text \<open>Truthiness of an optional string: \<open>None\<close> and \<open>""\<close> are falsy.\<close>

definition truthy :: "string option \<Rightarrow> bool" where
  "truthy x = (case x of None \<Rightarrow> False | Some s \<Rightarrow> s \<noteq> [])"

definition log_call :: "api_call \<Rightarrow> api_result \<Rightarrow> app \<Rightarrow> app" where
  "log_call c r s = s\<lparr>api_log := api_log s @ [(c, r)]\<rparr>"

definition show_message :: "message \<Rightarrow> app \<Rightarrow> app" where
  "show_message m s = s\<lparr>messages := messages s @ [m]\<rparr>"

text \<open>What the catalog log says happened: playlists created, tracks appended.\<close>

definition created_of :: "api_call \<times> api_result \<Rightarrow> string list" where
  "created_of x =
     (case x of (UserPlaylistCreate u n, ReturnedId p) \<Rightarrow> [p] | _ \<Rightarrow> [])"

definition created_ids :: "api_log \<Rightarrow> string list" where
  "created_ids l = concat (map created_of l)"

definition appended_of :: "api_call \<times> api_result \<Rightarrow> (string \<times> string list) list" where
  "appended_of x =
     (case x of (PlaylistAddItems p items, Returned) \<Rightarrow> [(p, items)] | _ \<Rightarrow> [])"

definition appended :: "api_log \<Rightarrow> (string \<times> string list) list" where
  "appended l = concat (map appended_of l)"

section \<open>Enumerating the candidate files\<close>

text \<open>
  \<^verbatim>\<open>
  def get_audio_files(self, directory):
      all_files = []
      for root, dirs, files in os.walk(directory):
          for filename in files:
              _, ext = os.path.splitext(filename)
              if ext.lower() not in self.blacklisted_extensions:
                  all_files.append(os.path.join(root, filename))
      return all_files
  \<close>
  \<open>self.blacklisted_extensions\<close> is bound to \<open>BLACKLIST_EXTENSIONS\<close> in \<open>__init__\<close>
  and never assigned again. The argument \<open>walk\<close> is what \<open>os.walk(directory)\<close> yields.
\<close>

fun get_audio_files_inner :: "string \<Rightarrow> string list \<Rightarrow> string list \<Rightarrow> string list" where
  "get_audio_files_inner root [] all_files = all_files"
| "get_audio_files_inner root (filename # files) all_files =
     (let ext = snd (splitext filename)
      in if lower ext \<notin> set BLACKLIST_EXTENSIONS
         then get_audio_files_inner root files (all_files @ [join root filename])
         else get_audio_files_inner root files all_files)"

fun get_audio_files_outer :: "walk_entry list \<Rightarrow> string list \<Rightarrow> string list" where
  "get_audio_files_outer [] all_files = all_files"
| "get_audio_files_outer ((root, dirs, files) # rest) all_files =
     get_audio_files_outer rest (get_audio_files_inner root files all_files)"

definition get_audio_files :: "walk_entry list \<Rightarrow> string list" where
  "get_audio_files walk = get_audio_files_outer walk []"

section \<open>Local metadata and the default query\<close>

text \<open>
  \<open>get_file_metadata\<close> never raises: its body is one \<open>try\<close> whose handler prints and
  falls through to the return.
\<close>

definition get_file_metadata ::
  "mutagen_file \<Rightarrow> string option \<times> string option \<times> string option" where
  "get_file_metadata m =
     (case m of
        MutagenRaises e \<Rightarrow> (None, None, None)
      | MutagenFalsy \<Rightarrow> (None, None, None)
      | MutagenMeta tags info \<Rightarrow>
          (let title = (case tags of None \<Rightarrow> None
                        | Some tg \<Rightarrow> if tg = [] then None else map_of tg ''TIT2'');
               artist = (case tags of None \<Rightarrow> None
                         | Some tg \<Rightarrow> if tg = [] then None else map_of tg ''TPE1'');
               duration_str = (case info of None \<Rightarrow> None
                               | Some length_seconds \<Rightarrow> Some (fmt_duration length_seconds))
           in (title, artist, duration_str)))"

text \<open>
  \<^verbatim>\<open>
  if title and artist:        prefill_text = f"{title} {artist}"
  elif title and not artist:  prefill_text = title
  elif not title and artist:  prefill_text = artist
  else:
      base, _ = os.path.splitext(filename)
      prefill_text = base
  \<close>
\<close>

definition prefill_text :: "string option \<Rightarrow> string option \<Rightarrow> string \<Rightarrow> string" where
  "prefill_text title artist filename =
     (if truthy title \<and> truthy artist then the title @ '' '' @ the artist
      else if truthy title \<and> \<not> truthy artist then the title
      else if \<not> truthy title \<and> truthy artist then the artist
      else fst (splitext filename))"

section \<open>Playback\<close>

definition stop_local_audio :: "app \<Rightarrow> app" where
  "stop_local_audio s = s\<lparr>mixer_music := None\<rparr>"

text \<open>
  \<^verbatim>\<open>
  def stop_preview_audio(self):
      pygame.mixer.music.stop()
      if self.preview_temp_path and os.path.exists(self.preview_temp_path):
          try:
              os.remove(self.preview_temp_path)
          except Exception as e:
              print("Failed to remove temp preview file:", e)
      self.preview_temp_path = None
  \<close>
\<close>

definition stop_preview_audio :: "env \<Rightarrow> app \<Rightarrow> app" where
  "stop_preview_audio e s =
     (let s1 = s\<lparr>mixer_music := None\<rparr>;
          s2 = (case preview_temp_path s1 of
                  None \<Rightarrow> s1
                | Some p \<Rightarrow>
                    if p \<noteq> [] \<and> p \<in> disk s1 then
                      (case remove_result e of
                         None \<Rightarrow> s1\<lparr>disk := disk s1 - {p}\<rparr>
                       | Some x \<Rightarrow> s1)
                    else s1)
      in s2\<lparr>preview_temp_path := None\<rparr>)"

text \<open>
  \<^verbatim>\<open>
  def play_spotify_preview(self, url):
      self.stop_preview_audio()
      if not url:
          messagebox.showinfo("Preview Unavailable", ...)
          return
      try:
          response = requests.get(url, timeout=10)
          response.raise_for_status()
          with tempfile.NamedTemporaryFile(delete=False, suffix=".mp3") as tmp:
              tmp.write(response.content)
              tmp.flush()
              self.preview_temp_path = tmp.name
          pygame.mixer.music.load(self.preview_temp_path)
          pygame.mixer.music.play()
      except Exception as e:
          messagebox.showerror("Error", ...)
  \<close>
\<close>

definition play_spotify_preview :: "string \<Rightarrow> env \<Rightarrow> app \<Rightarrow> app" where
  "play_spotify_preview url e s =
     (let s1 = stop_preview_audio e s
      in if url = [] then show_message (ShowInfo ''Preview Unavailable'') s1
         else
           (case download_result e of
              Some x \<Rightarrow> show_message (ShowError ''Error'') s1
            | None \<Rightarrow>
                (let s2 = s1\<lparr>disk := insert (temp_name e) (disk s1),
                              preview_temp_path := Some (temp_name e)\<rparr>
                 in case load_result e of
                      Some x \<Rightarrow> show_message (ShowError ''Error'') s2
                    | None \<Rightarrow> s2\<lparr>mixer_music := Some (temp_name e)\<rparr>)))"

text \<open>
  \<^verbatim>\<open>
  def play_local_audio(self):
      self.stop_local_audio()  # Stop if something else is playing
      if self.current_filepath and os.path.exists(self.current_filepath):
          try:
              pygame.mixer.music.load(self.current_filepath)
              pygame.mixer.music.play()
          except Exception as e:
              messagebox.showerror("Playback Error", ...)
  \<close>
\<close>

definition play_local_audio :: "env \<Rightarrow> app \<Rightarrow> app" where
  "play_local_audio e s =
     (let s1 = stop_local_audio s
      in case current_filepath s1 of
           None \<Rightarrow> s1
         | Some p \<Rightarrow>
             if p \<noteq> [] \<and> p \<in> disk s1 then
               (case load_result e of
                  Some x \<Rightarrow> show_message (ShowError ''Playback Error'') s1
                | None \<Rightarrow> s1\<lparr>mixer_music := Some p\<rparr>)
             else s1)"

section \<open>The review workflow\<close>

text \<open>
  Every handler below returns the exception that escaped it, if any, and the state it
  left: assignments made before a \<open>raise\<close> stay.

  \<^verbatim>\<open>
  def search_spotify(self):
      for widget in self.results_frame.winfo_children():
          widget.destroy()
      self.stop_preview_audio()
      query = self.query_var.get().strip()
      if not query:
          return
      results = self.sp.search(q=query, limit=5, type='track')
      tracks = results.get('tracks', {}).get('items', [])
      if not tracks:
          tk.Label(self.results_frame, text="No results found.", fg="red").pack()
          return
      self.track_var = tk.StringVar()
      self.track_var.set(tracks[0]['uri'])
      for i, track in enumerate(tracks):
          ...   # one row per track
      add_button = tk.Button(self.results_frame, text="Add to Playlist", ...)
  \<close>
  \<open>search_result\<close> is the \<open>tracks\<close> list read from the response, or the exception the
  client raised. With \<open>self.sp\<close> being \<open>None\<close> the attribute access raises.
\<close>

definition search_spotify :: "env \<Rightarrow> app \<Rightarrow> exn option \<times> app" where
  "search_spotify e s =
     (case results_frame s of
        None \<Rightarrow> (Some AttributeError, s)
      | Some old \<Rightarrow>
          (let s1 = s\<lparr>results_frame := Some []\<rparr>;
               s2 = stop_preview_audio e s1
           in case query_var s2 of
                None \<Rightarrow> (Some AttributeError, s2)
              | Some q \<Rightarrow>
                  (let query = strip q
                   in if query = [] then (None, s2)
                      else if \<not> sp s2 then (Some AttributeError, s2)
                      else
                        (case search_result e of
                           Inl x \<Rightarrow> (Some x, log_call (Search query 5) (Raised x) s2)
                         | Inr tracks \<Rightarrow>
                             (let s3 = log_call (Search query 5) Returned s2
                              in case tracks of
                                   [] \<Rightarrow> (None, s3\<lparr>results_frame := Some [NoResultsLabel]\<rparr>)
                                 | t # ts \<Rightarrow>
                                     (None, s3\<lparr>track_var := Some (track_uri t),
                                                results_frame :=
                                                  Some (map TrackRow tracks @ [AddButton])\<rparr>))))))"

text \<open>
  \<^verbatim>\<open>
  def show_file_prompt(self):
      if self.current_index >= len(self.audio_files):
          messagebox.showinfo("Done", f"All files processed.\nSkipped songs:\n{self.skipped_songs}")
          self.draw_initial_ui()
          return
      ...
      self.current_filepath = self.audio_files[self.current_index]
      filename = os.path.basename(self.current_filepath)
      title, artist, duration_str = self.get_file_metadata(self.current_filepath)
      self.local_title = title
      self.local_artist = artist
      self.local_duration_str = duration_str
      ...   # prefill_text
      self.query_var = tk.StringVar(value=prefill_text)
      self.results_frame = tk.Frame(self.main_frame)
      self.url_var = tk.StringVar()
      self.search_spotify()
  \<close>
\<close>

definition show_file_prompt :: "env \<Rightarrow> app \<Rightarrow> exn option \<times> app" where
  "show_file_prompt e s =
     (if current_index s \<ge> length (audio_files s) then
        (None, (show_message (ShowDone (skipped_songs s)) s)\<lparr>file_prompt_shown := False\<rparr>)
      else
        (let path = audio_files s ! current_index s;
             filename = basename path;
             (title, artist, duration_str) = get_file_metadata (mutagen_read e);
             s1 = s\<lparr>current_filepath := Some path,
                     local_title := title,
                     local_artist := artist,
                     local_duration_str := duration_str,
                     query_var := Some (prefill_text title artist filename),
                     results_frame := Some [],
                     url_var := Some [],
                     file_prompt_shown := True\<rparr>
         in search_spotify e s1))"

text \<open>
  \<^verbatim>\<open>
  def go_to_next_file(self):
      self.stop_local_audio()
      self.stop_preview_audio()
      self.current_index += 1
      self.show_file_prompt()
  \<close>
\<close>

definition go_to_next_file :: "env \<Rightarrow> app \<Rightarrow> exn option \<times> app" where
  "go_to_next_file e s =
     (let s1 = stop_local_audio s;
          s2 = stop_preview_audio e s1;
          s3 = s2\<lparr>current_index := current_index s2 + 1\<rparr>
      in show_file_prompt e s3)"

text \<open>
  \<^verbatim>\<open>
  def create_playlist(self):
      if self.playlist_name and self.sp:
          user_id = self.sp.current_user()["id"]
          new_playlist = self.sp.user_playlist_create(user=user_id, name=self.playlist_name, public=True)
          self.playlist_id = new_playlist["id"]
  \<close>
\<close>

definition create_playlist :: "env \<Rightarrow> app \<Rightarrow> exn option \<times> app" where
  "create_playlist e s =
     (if truthy (playlist_name s) \<and> sp s then
        (case current_user_result e of
           Inl x \<Rightarrow> (Some x, log_call CurrentUser (Raised x) s)
         | Inr user_id \<Rightarrow>
             (let s1 = log_call CurrentUser (ReturnedId user_id) s;
                  call = UserPlaylistCreate user_id (the (playlist_name s))
              in case playlist_create_result e of
                   Inl x \<Rightarrow> (Some x, log_call call (Raised x) s1)
                 | Inr new_id \<Rightarrow>
                     (None, (log_call call (ReturnedId new_id) s1)\<lparr>playlist_id := Some new_id\<rparr>)))
      else (None, s))"

text \<open>
  \<open>self.sp.playlist_add_items(self.playlist_id, [uri])\<close>. With \<open>self.sp\<close> being
  \<open>None\<close> the attribute access raises; with a playlist id of \<open>None\<close> the client fails
  while it parses the id, before any request.
\<close>

definition sp_playlist_add_items ::
  "env \<Rightarrow> string option \<Rightarrow> string list \<Rightarrow> app \<Rightarrow> exn option \<times> app" where
  "sp_playlist_add_items e pid items s =
     (if \<not> sp s then (Some AttributeError, s)
      else
        (case pid of
           None \<Rightarrow> (Some TypeError, s)
         | Some p \<Rightarrow>
             (case add_items_result e of
                Some x \<Rightarrow> (Some x, log_call (PlaylistAddItems p items) (Raised x) s)
              | None \<Rightarrow> (None, log_call (PlaylistAddItems p items) Returned s))))"

text \<open>
  \<^verbatim>\<open>
  def add_to_playlist(self):
      if self.playlist_id is None:
          self.create_playlist()
      selected_track_uri = self.track_var.get()
      if selected_track_uri:
          self.sp.playlist_add_items(self.playlist_id, [selected_track_uri])
      self.go_to_next_file()
  \<close>
\<close>

definition add_to_playlist :: "env \<Rightarrow> app \<Rightarrow> exn option \<times> app" where
  "add_to_playlist e s =
     (let (r1, s1) = (if playlist_id s = None then create_playlist e s else (None, s))
      in case r1 of
           Some x \<Rightarrow> (Some x, s1)
         | None \<Rightarrow>
             (case track_var s1 of
                None \<Rightarrow> (Some AttributeError, s1)
              | Some selected_track_uri \<Rightarrow>
                  (let (r2, s2) =
                         (if selected_track_uri \<noteq> []
                          then sp_playlist_add_items e (playlist_id s1) [selected_track_uri] s1
                          else (None, s1))
                   in case r2 of
                        Some x \<Rightarrow> (Some x, s2)
                      | None \<Rightarrow> go_to_next_file e s2)))"

text \<open>
  \<^verbatim>\<open>
  def skip_file(self):
      filename = os.path.basename(self.audio_files[self.current_index])
      self.skipped_songs.append(filename)
      self.go_to_next_file()
  \<close>
\<close>

definition skip_file :: "env \<Rightarrow> app \<Rightarrow> exn option \<times> app" where
  "skip_file e s =
     (if current_index s < length (audio_files s) then
        (let filename = basename (audio_files s ! current_index s)
         in go_to_next_file e (s\<lparr>skipped_songs := skipped_songs s @ [filename]\<rparr>))
      else (Some IndexError, s))"

text \<open>
  \<^verbatim>\<open>
  def add_track_by_url(self):
      track_url = self.url_var.get().strip()
      if not track_url:
          messagebox.showerror("No URL", ...)
          return
      if self.playlist_id is None:
          self.create_playlist()
      try:
          track_info = self.sp.track(track_url)
          if track_info and track_info["type"] == "track":
              track_uri = track_info["uri"]
              self.sp.playlist_add_items(self.playlist_id, [track_uri])
              messagebox.showinfo("Success", ...)
              self.go_to_next_file()
          else:
              messagebox.showerror("Invalid Track", ...)
      except Exception as e:
          messagebox.showerror("Invalid URL", ...)
  \<close>
  \<open>add_track_by_url_try\<close> is the body of the \<open>try\<close>.
\<close>

definition add_track_by_url_try :: "string \<Rightarrow> env \<Rightarrow> app \<Rightarrow> exn option \<times> app" where
  "add_track_by_url_try track_url e s =
     (if \<not> sp s then (Some AttributeError, s)
      else
        (case track_result e of
           Inl x \<Rightarrow> (Some x, log_call (TrackLookup track_url) (Raised x) s)
         | Inr found \<Rightarrow>
             (let s1 = log_call (TrackLookup track_url) Returned s
              in case found of
                   None \<Rightarrow> (None, show_message (ShowError ''Invalid Track'') s1)
                 | Some info \<Rightarrow>
                     if info_type info = ''track'' then
                       (let (r, s2) = sp_playlist_add_items e (playlist_id s1) [info_uri info] s1
                        in case r of
                             Some x \<Rightarrow> (Some x, s2)
                           | None \<Rightarrow> go_to_next_file e (show_message (ShowInfo ''Success'') s2))
                     else (None, show_message (ShowError ''Invalid Track'') s1))))"

definition add_track_by_url :: "env \<Rightarrow> app \<Rightarrow> exn option \<times> app" where
  "add_track_by_url e s =
     (case url_var s of
        None \<Rightarrow> (Some AttributeError, s)
      | Some u \<Rightarrow>
          (let track_url = strip u
           in if track_url = [] then (None, show_message (ShowError ''No URL'') s)
              else
                (let (r1, s1) = (if playlist_id s = None then create_playlist e s else (None, s))
                 in case r1 of
                      Some x \<Rightarrow> (Some x, s1)
                    | None \<Rightarrow>
                        (let (r2, s2) = add_track_by_url_try track_url e s1
                         in case r2 of
                              Some x \<Rightarrow> (None, show_message (ShowError ''Invalid URL'') s2)
                            | None \<Rightarrow> (None, s2)))))"

text \<open>
  \<^verbatim>\<open>
  def select_directory(self):
      directory = filedialog.askdirectory(...)
      if directory:
          self.selected_directory = directory
          self.playlist_name = simpledialog.askstring("Playlist Name", ...)
          self.audio_files = self.get_audio_files(directory)
          self.audio_files.sort(key=lambda x: os.path.basename(x).lower())
          self.current_index = 0
          self.show_file_prompt()
  \<close>
  \<open>directory\<close> and \<open>name\<close> are what the two dialogs return; \<open>list.sort\<close> is stable, as
  \<open>sort_key\<close> is.
\<close>

definition select_directory ::
  "string \<Rightarrow> string option \<Rightarrow> walk_entry list \<Rightarrow> env \<Rightarrow> app \<Rightarrow> exn option \<times> app" where
  "select_directory directory name walk e s =
     (if directory \<noteq> [] then
        show_file_prompt e
          (s\<lparr>selected_directory := Some directory,
             playlist_name := name,
             audio_files := sort_key (\<lambda>x. lower (basename x)) (get_audio_files walk),
             current_index := 0\<rparr>)
      else (None, s))"

section \<open>Events\<close>

text \<open>
  What the user can do: pick a directory, edit the two entries, pick a radio button, and
  press a button. An exception that escapes a handler is reported by the event loop, which
  goes on with the state the handler left.
\<close>

datatype event =
  SelectDirectory string "string option" "walk_entry list"
  | EditQuery string
  | EditUrl string
  | ChooseTrack string
  | SearchButton
  | AddByUrlButton
  | AddToPlaylistButton
  | SkipButton
  | PlayLocalButton
  | StopLocalButton
  | PlayPreviewButton string
  | StopPreviewButton

definition radio_values :: "widget list \<Rightarrow> string list" where
  "radio_values ws = concat (map (\<lambda>w. case w of TrackRow t \<Rightarrow> [track_uri t] | _ \<Rightarrow> []) ws)"

fun handle :: "event \<Rightarrow> env \<Rightarrow> app \<Rightarrow> exn option \<times> app" where
  "handle (SelectDirectory directory name walk) e s = select_directory directory name walk e s"
| "handle (EditQuery q) e s =
     (None, if query_var s = None then s else s\<lparr>query_var := Some q\<rparr>)"
| "handle (EditUrl u) e s =
     (None, if url_var s = None then s else s\<lparr>url_var := Some u\<rparr>)"
| "handle (ChooseTrack u) e s =
     (None, case results_frame s of
              None \<Rightarrow> s
            | Some ws \<Rightarrow> if u \<in> set (radio_values ws) then s\<lparr>track_var := Some u\<rparr> else s)"
| "handle SearchButton e s = search_spotify e s"
| "handle AddByUrlButton e s = add_track_by_url e s"
| "handle AddToPlaylistButton e s = add_to_playlist e s"
| "handle SkipButton e s = skip_file e s"
| "handle PlayLocalButton e s = (None, play_local_audio e s)"
| "handle StopLocalButton e s = (None, stop_local_audio s)"
| "handle (PlayPreviewButton url) e s = (None, play_spotify_preview url e s)"
| "handle StopPreviewButton e s = (None, stop_preview_audio e s)"

fun run :: "(event \<times> env) list \<Rightarrow> app \<Rightarrow> app" where
  "run [] s = s"
| "run ((ev, e) # rest) s = run rest (snd (handle ev e s))"

section \<open>Notions used to state the properties\<close>

text \<open>Every path the walk finds: each file name joined to the root it was listed under.\<close>

definition walked_paths :: "walk_entry list \<Rightarrow> string list" where
  "walked_paths walk = concat (map (\<lambda>(root, dirs, files). map (join root) files) walk)"

text \<open>A path whose extension, lower-cased, is on the deny-list.\<close>

definition blacklisted :: "string \<Rightarrow> bool" where
  "blacklisted p = (lower (snd (splitext p)) \<in> set BLACKLIST_EXTENSIONS)"

text \<open>\<open>os.walk\<close> lists bare file names: no name holds a separator.\<close>

definition bare_names :: "walk_entry list \<Rightarrow> bool" where
  "bare_names walk =
     list_all (\<lambda>(root, dirs, files). list_all (\<lambda>f. CHR ''/'' \<notin> set f) files) walk"

text \<open>
  Playlist creation, seen from its inputs. \<open>create_playlist\<close> asks the catalog only when
  a playlist name was given and the client exists; both of its requests must return for an
  identifier to be stored. It is called when no identifier is stored yet.
\<close>

definition creation_returns :: "env \<Rightarrow> bool" where
  "creation_returns e =
     (case current_user_result e of
        Inl x \<Rightarrow> False
      | Inr user_id \<Rightarrow> (case playlist_create_result e of Inl x \<Rightarrow> False | Inr p \<Rightarrow> True))"

definition creation_raises :: "env \<Rightarrow> app \<Rightarrow> bool" where
  "creation_raises e s =
     (playlist_id s = None \<and> truthy (playlist_name s) \<and> sp s \<and> \<not> creation_returns e)"

definition playlist_at_hand :: "env \<Rightarrow> app \<Rightarrow> bool" where
  "playlist_at_hand e s =
     (playlist_id s \<noteq> None \<or> (truthy (playlist_name s) \<and> sp s \<and> creation_returns e))"

text \<open>The append request is made and returns: a client, a playlist and no exception.\<close>

definition append_goes_through :: "env \<Rightarrow> app \<Rightarrow> bool" where
  "append_goes_through e s = (sp s \<and> playlist_at_hand e s \<and> add_items_result e = None)"

text \<open>
  The three operations that resolve a file (skip, add by search, add by URL), and when one
  of them is completed, told from the state it starts in and the answers it gets: a skip
  when the cursor is on a file; an add by search when a selection exists, playlist
  creation does not raise, and the selected URI is empty or its append goes through; an
  add by URL when the reference typed is not blank, it resolves to a track, and the append
  goes through. No other event is a completed operation.
\<close>

definition completes :: "event \<Rightarrow> env \<Rightarrow> app \<Rightarrow> bool" where
  "completes ev e s =
     (case ev of
        SkipButton \<Rightarrow> current_index s < length (audio_files s)
      | AddToPlaylistButton \<Rightarrow>
          (case track_var s of
             None \<Rightarrow> False
           | Some u \<Rightarrow> \<not> creation_raises e s \<and> (u = [] \<or> append_goes_through e s))
      | AddByUrlButton \<Rightarrow>
          (case url_var s of
             None \<Rightarrow> False
           | Some u \<Rightarrow>
               strip u \<noteq> [] \<and> append_goes_through e s \<and>
               (case track_result e of
                  Inl x \<Rightarrow> False
                | Inr None \<Rightarrow> False
                | Inr (Some info) \<Rightarrow> info_type info = ''track''))
      | _ \<Rightarrow> False)"

text \<open>The number of completed operations in a run of events.\<close>

fun completed_count :: "(event \<times> env) list \<Rightarrow> app \<Rightarrow> nat" where
  "completed_count [] s = 0"
| "completed_count ((ev, e) # rest) s =
     (if completes ev e s then 1 else 0) + completed_count rest (snd (handle ev e s))"

text \<open>Selecting a directory starts the next session; every other event stays in one.\<close>

definition is_select :: "event \<Rightarrow> bool" where
  "is_select ev = (case ev of SelectDirectory d n w \<Rightarrow> True | _ \<Rightarrow> False)"

definition in_session :: "(event \<times> env) list \<Rightarrow> bool" where
  "in_session evs = list_all (\<lambda>(ev, e). \<not> is_select ev) evs"

text \<open>
  The direct reference does not resolve (the lookup raises or returns nothing), or what it
  resolves to is not a track.
\<close>

definition lookup_fails :: "env \<Rightarrow> bool" where
  "lookup_fails e =
     (case track_result e of
        Inl x \<Rightarrow> True
      | Inr None \<Rightarrow> True
      | Inr (Some info) \<Rightarrow> info_type info \<noteq> ''track'')"

text \<open>
  The catalog log agrees with the stored playlist identifier: the playlists created are
  none when no identifier is stored and exactly the stored one otherwise, and every track
  appended went to the stored playlist.
\<close>

definition playlist_inv :: "app \<Rightarrow> bool" where
  "playlist_inv s =
     (created_ids (api_log s) = (case playlist_id s of None \<Rightarrow> [] | Some p \<Rightarrow> [p]) \<and>
      list_all (\<lambda>x. playlist_id s = Some (fst x)) (appended (api_log s)))"


text \<open>A child of \<open>results_frame\<close> the user can act on: a track row or the add button.\<close>

definition selectable :: "widget \<Rightarrow> bool" where
  "selectable w = (case w of NoResultsLabel \<Rightarrow> False | TrackRow t \<Rightarrow> True | AddButton \<Rightarrow> True)"

section \<open>Example scenarios\<close>

text \<open>An outside world in which every call succeeds and every search finds nothing.\<close>

definition quiet_env :: env where
  "quiet_env =
     \<lparr> mutagen_read = MutagenFalsy, search_result = Inr [], current_user_result = Inr ''me'',
       playlist_create_result = Inr ''pl1'', track_result = Inr None, add_items_result = None,
       remove_result = None, download_result = None, temp_name = ''/tmp/preview1.mp3'',
       load_result = None \<rparr>"

text \<open>A music directory with a sub-directory, cover images and a dot-file.\<close>

definition music_walk :: "walk_entry list" where
  "music_walk =
     [(''/m'', [''sub''], [''b.mp3'', ''cover.JPG'', ''a.mp3'']),
      (''/m/sub'', [], [''C.flac'', ''art.png'', ''.gif''])]"

text \<open>File names with accented letters: \<open>0xE0\<close> and its capital, \<open>0xC9\<close> and its small letter.\<close>

definition accent_walk :: "walk_entry list" where
  "accent_walk =
     [(''/m'', [], [CHR 0xE0 # ''.mp3'', ''b.mp3'', CHR 0xC9 # ''.mp3'', CHR 0xC0 # ''.PNG''])]"

text \<open>
  The directory of the end-to-end scenario: \<open>b.mp3\<close> is tagged (title "Song B", artist
  "Artist X"), \<open>a.mp3\<close> is not.
\<close>

definition two_walk :: "walk_entry list" where
  "two_walk = [(''/music'', [], [''b.mp3'', ''a.mp3''])]"

definition tagged_env :: env where
  "tagged_env =
     quiet_env\<lparr>mutagen_read :=
       MutagenMeta (Some [(''TIT2'', ''Song B''), (''TPE1'', ''Artist X'')]) (Some 185)\<rparr>"

definition two_started :: app where
  "two_started =
     snd (select_directory ''/music'' (Some ''Mix'') two_walk quiet_env
            (init_app True {''/music/a.mp3'', ''/music/b.mp3''}))"

text \<open>A session whose searches find one track, and one whose track has an empty URI.\<close>

definition song_track :: track where
  "song_track =
     \<lparr> track_uri = ''spotify:track:1'', track_name = ''Song A'', track_artists = [''Artist X''],
       track_album = ''Album'', track_duration_ms = 185,
       track_preview_url = Some ''https://p.example/1.mp3'',
       track_external_url = ''https://open.spotify.com/track/1'' \<rparr>"

definition found_env :: env where
  "found_env = quiet_env\<lparr>search_result := Inr [song_track]\<rparr>"

definition found_started :: app where
  "found_started =
     snd (select_directory ''/music'' (Some ''Mix'') two_walk found_env
            (init_app True {''/music/a.mp3'', ''/music/b.mp3''}))"

definition blank_uri_env :: env where
  "blank_uri_env = quiet_env\<lparr>search_result := Inr [song_track\<lparr>track_uri := []\<rparr>]\<rparr>"

definition blank_uri_started :: app where
  "blank_uri_started =
     snd (select_directory ''/music'' (Some ''Mix'') two_walk blank_uri_env
            (init_app True {''/music/a.mp3'', ''/music/b.mp3''}))"

text \<open>The catalog does not tell who the user is, so no playlist can be created.\<close>

definition no_user_env :: env where
  "no_user_env = quiet_env\<lparr>current_user_result := Inl SpotifyException\<rparr>"

text \<open>The user has typed a reference into the URL entry; the catalog will not resolve it.\<close>

definition url_typed :: app where
  "url_typed = snd (handle (EditUrl ''spotify:track:zz'') quiet_env found_started)"

definition bad_ref_env :: env where
  "bad_ref_env = quiet_env\<lparr>track_result := Inl SpotifyException\<rparr>"

text \<open>
  A session in which the first file is added by search and the second by a direct
  reference; the catalog would hand out another playlist if asked a second time.
\<close>

definition good_ref_env :: env where
  "good_ref_env =
     quiet_env\<lparr>track_result :=
                  Inr (Some \<lparr>info_type = ''track'', info_uri = ''spotify:track:2'',
                             info_name = ''Song B''\<rparr>),
               playlist_create_result := Inr ''pl2''\<rparr>"








text \<open>
  A session of three files: the first is skipped, the second added by search; for the
  third the user types a reference and adds it by URL; a further skip finds no file left.
\<close>

definition three_started :: app where
  "three_started =
     snd (select_directory ''/music'' (Some ''Mix'')
            [(''/music'', [], [''a.mp3'', ''b.mp3'', ''c.mp3''])] found_env
            (init_app True {''/music/a.mp3'', ''/music/b.mp3'', ''/music/c.mp3''}))"

definition skip_add_type_add_skip :: "(event \<times> env) list" where
  "skip_add_type_add_skip =
     [(SkipButton, found_env),
      (AddToPlaylistButton, found_env),
      (EditUrl ''spotify:track:2'', quiet_env),
      (AddByUrlButton, good_ref_env),
      (SkipButton, quiet_env)]"

text \<open>Authentication failed at start-up: there is no client when the directory is selected.\<close>

definition no_client_started :: app where
  "no_client_started =
     snd (select_directory ''/music'' (Some ''Mix'') two_walk found_env
            (init_app False {''/music/a.mp3'', ''/music/b.mp3''}))"

text \<open>
  The first file is presented with one result, and its preview is playing; then the user
  blanks the query.
\<close>

definition previewing :: app where
  "previewing = snd (handle (PlayPreviewButton ''https://p.example/1.mp3'') quiet_env found_started)"

definition blanked :: app where
  "blanked = snd (handle (EditQuery ''  '') quiet_env previewing)"

text \<open>The catalog has stopped answering: searches and appends raise.\<close>

definition net_down_env :: env where
  "net_down_env =
     quiet_env\<lparr>search_result := Inl SpotifyException,
               add_items_result := Some SpotifyException\<rparr>"

text \<open>The reference resolves to a track, but appending it raises.\<close>

definition append_fails_env :: env where
  "append_fails_env = good_ref_env\<lparr>add_items_result := Some SpotifyException\<rparr>"

text \<open>The operating system refuses to remove the preview file.\<close>

definition locked_env :: env where
  "locked_env = quiet_env\<lparr>remove_result := Some OSError\<rparr>"

section \<open>Facts about paths\<close>

lemma rfind_notin: "c \<notin> set xs \<Longrightarrow> rfind c xs = -1"
  by (induction xs) (auto simp: Let_def)

lemma rfind_bounds: "-1 \<le> rfind c xs \<and> rfind c xs < int (length xs)"
  by (induction xs) (auto simp: Let_def)

lemma rfind_nonneg: "c \<in> set xs \<Longrightarrow> 0 \<le> rfind c xs"
  by (induction xs) (auto simp: Let_def)

lemma rfind_in: "c \<in> set xs \<Longrightarrow> 0 \<le> rfind c xs \<and> rfind c xs < int (length xs)"
  using rfind_bounds[of c xs] by (simp add: rfind_nonneg)

lemma rfind_append:
  "rfind c (a @ b) = (if c \<in> set b then int (length a) + rfind c b else rfind c a)"
proof (induction a)
  case Nil
  then show ?case by (simp add: rfind_notin)
next
  case (Cons x a)
  then show ?case using rfind_in[of c b] rfind_bounds[of c a]
    by (auto simp: Let_def rfind_notin)
qed

lemma splitext_loop_iff:
  "splitext_loop p i d =
     (if \<exists>k. i \<le> k \<and> k < d \<and> take 1 (drop k p) \<noteq> ''.''
      then Some (take d p, drop d p) else None)"
proof (induction p i d rule: splitext_loop.induct)
  case (1 p i d)
  show ?case
  proof (cases "i < d")
    case False
    then show ?thesis by (subst splitext_loop.simps) auto
  next
    case True
    show ?thesis
    proof (cases "take 1 (drop i p) \<noteq> ''.''")
      case True
      with \<open>i < d\<close> show ?thesis by (subst splitext_loop.simps) auto
    next
      case False
      have "(\<exists>k. i \<le> k \<and> k < d \<and> take 1 (drop k p) \<noteq> ''.'')
            = (\<exists>k. i + 1 \<le> k \<and> k < d \<and> take 1 (drop k p) \<noteq> ''.'')"
        using False by (metis Suc_eq_plus1 Suc_leI le_neq_implies_less nat_less_le add_leD1)
      with False \<open>i < d\<close> 1 show ?thesis by (subst splitext_loop.simps) simp
    qed
  qed
qed

lemma join_bare:
  assumes "CHR ''/'' \<notin> set f"
  shows "\<exists>pre. join root f = pre @ f \<and> rfind CHR ''/'' pre + 1 = int (length pre)"
proof -
  have nf: "\<not> startswith_sep f"
    using assms by (cases f) (auto simp: startswith_sep_def)
  show ?thesis
  proof (cases "root = []")
    case True
    with nf have "join root f = [] @ f" by (simp add: join_def)
    then show ?thesis by (intro exI[of _ "[]"]) simp
  next
    case False
    show ?thesis
    proof (cases "endswith_sep root")
      case True
      then obtain r where r: "root = r @ ''/''"
        by (cases root rule: rev_cases) (auto simp: endswith_sep_def)
      with nf True have "join root f = root @ f" by (simp add: join_def)
      moreover have "rfind CHR ''/'' root + 1 = int (length root)"
        using r by (simp add: rfind_append)
      ultimately show ?thesis by blast
    next
      case False
      with nf \<open>root \<noteq> []\<close> have "join root f = (root @ ''/'') @ f" by (simp add: join_def)
      moreover have "rfind CHR ''/'' (root @ ''/'') + 1 = int (length (root @ ''/''))"
        by (simp add: rfind_append)
      ultimately show ?thesis by blast
    qed
  qed
qed

lemma basename_prefixed:
  assumes "CHR ''/'' \<notin> set f" and "rfind CHR ''/'' pre + 1 = int (length pre)"
  shows "basename (pre @ f) = f"
  using assms by (simp add: basename_def rfind_append)

lemma splitext_alt:
  "splitext p =
     (if rfind CHR ''.'' p > rfind CHR ''/'' p \<and>
         (\<exists>k. nat (rfind CHR ''/'' p + 1) \<le> k \<and> k < nat (rfind CHR ''.'' p) \<and> take 1 (drop k p) \<noteq> ''.'')
      then (take (nat (rfind CHR ''.'' p)) p, drop (nat (rfind CHR ''.'' p)) p)
      else (p, []))"
  by (auto simp: splitext_def Let_def splitext_loop_iff)

lemma ext_prefixed:
  assumes nf: "CHR ''/'' \<notin> set f" and pre: "rfind CHR ''/'' pre + 1 = int (length pre)"
  shows "snd (splitext (pre @ f)) = snd (splitext f)"
proof (cases "CHR ''.'' \<in> set f")
  case False
  have "rfind CHR ''.'' (pre @ f) = rfind CHR ''.'' pre" using False by (simp add: rfind_append)
  moreover have "rfind CHR ''/'' (pre @ f) = rfind CHR ''/'' pre" using nf by (simp add: rfind_append)
  moreover have "rfind CHR ''.'' pre < int (length pre)" using rfind_bounds by blast
  ultimately have "\<not> rfind CHR ''.'' (pre @ f) > rfind CHR ''/'' (pre @ f)" using pre by linarith
  then have "snd (splitext (pre @ f)) = []" by (simp add: splitext_alt)
  moreover have "snd (splitext f) = []" using False nf by (simp add: splitext_alt rfind_notin)
  ultimately show ?thesis by simp
next
  case True
  define d where "d = nat (rfind CHR ''.'' f)"
  have d: "rfind CHR ''.'' f = int d" using rfind_nonneg[OF True] by (simp add: d_def)
  have dotp: "rfind CHR ''.'' (pre @ f) = int (length pre + d)" using True d by (simp add: rfind_append)
  have sepp: "rfind CHR ''/'' (pre @ f) = int (length pre) - 1" using nf pre by (simp add: rfind_append)
  have sepf: "rfind CHR ''/'' f = -1" using nf by (simp add: rfind_notin)
  have ex: "(\<exists>k. length pre \<le> k \<and> k < length pre + d \<and> take 1 (drop k (pre @ f)) \<noteq> ''.'')
            = (\<exists>k. k < d \<and> take 1 (drop k f) \<noteq> ''.'')" (is "?L = ?R")
  proof
    assume ?L
    then obtain k where k: "length pre \<le> k" "k < length pre + d" "take 1 (drop k (pre @ f)) \<noteq> ''.''" by blast
    then have "k - length pre < d \<and> take 1 (drop (k - length pre) f) \<noteq> ''.''" by auto
    then show ?R by blast
  next
    assume ?R
    then obtain k where k: "k < d" "take 1 (drop k f) \<noteq> ''.''" by blast
    then have "length pre \<le> length pre + k \<and> length pre + k < length pre + d
               \<and> take 1 (drop (length pre + k) (pre @ f)) \<noteq> ''.''" by auto
    then show ?L by blast
  qed
  have s1: "nat (rfind CHR ''/'' (pre @ f) + 1) = length pre" using sepp by simp
  have d1: "nat (rfind CHR ''.'' (pre @ f)) = length pre + d" using dotp by simp
  have gt: "rfind CHR ''.'' (pre @ f) > rfind CHR ''/'' (pre @ f)" using dotp sepp by simp
  have s2: "nat (rfind CHR ''/'' f + 1) = 0" using sepf by simp
  have d2: "nat (rfind CHR ''.'' f) = d" using d by simp
  have gt2: "rfind CHR ''.'' f > rfind CHR ''/'' f" using d sepf by simp
  have dr: "drop (length pre + d) (pre @ f) = drop d f" by simp
  have "splitext (pre @ f) =
          (if (\<exists>k. length pre \<le> k \<and> k < length pre + d \<and> take 1 (drop k (pre @ f)) \<noteq> ''.'')
           then (take (length pre + d) (pre @ f), drop (length pre + d) (pre @ f))
           else (pre @ f, []))"
    by (subst splitext_alt) (simp only: s1 d1 gt simp_thms)
  then have A: "snd (splitext (pre @ f)) = (if (\<exists>k. k < d \<and> take 1 (drop k f) \<noteq> ''.'') then drop d f else [])"
    by (simp only: ex dr snd_conv if_distrib[of snd] split: if_splits)
  have "splitext f =
          (if (\<exists>k. 0 \<le> k \<and> k < d \<and> take 1 (drop k f) \<noteq> ''.'')
           then (take d f, drop d f) else (f, []))"
    by (subst splitext_alt) (simp only: s2 d2 gt2 simp_thms)
  then have B: "snd (splitext f) = (if (\<exists>k. k < d \<and> take 1 (drop k f) \<noteq> ''.'') then drop d f else [])"
    by (simp only: le0 simp_thms snd_conv if_distrib[of snd])
  show ?thesis unfolding A B ..
qed

lemma ext_join: "CHR ''/'' \<notin> set f \<Longrightarrow> snd (splitext (join root f)) = snd (splitext f)"
proof -
  assume nf: "CHR ''/'' \<notin> set f"
  from join_bare[OF nf, of root] obtain pre where
    j: "join root f = pre @ f" and r: "rfind CHR ''/'' pre + 1 = int (length pre)" by blast
  show ?thesis unfolding j by (rule ext_prefixed[OF nf r])
qed

lemma basename_join: "CHR ''/'' \<notin> set f \<Longrightarrow> basename (join root f) = f"
proof -
  assume nf: "CHR ''/'' \<notin> set f"
  from join_bare[OF nf, of root] obtain pre where
    j: "join root f = pre @ f" and r: "rfind CHR ''/'' pre + 1 = int (length pre)" by blast
  show ?thesis unfolding j by (rule basename_prefixed[OF nf r])
qed

lemma splitext_concat: "fst (splitext p) @ snd (splitext p) = p"
proof -
  define c where "c \<longleftrightarrow> (rfind CHR ''.'' p > rfind CHR ''/'' p \<and>
         (\<exists>k. nat (rfind CHR ''/'' p + 1) \<le> k \<and> k < nat (rfind CHR ''.'' p) \<and> take 1 (drop k p) \<noteq> ''.''))"
  have "splitext p = (if c then (take (nat (rfind CHR ''.'' p)) p, drop (nat (rfind CHR ''.'' p)) p) else (p, []))"
    unfolding c_def by (rule splitext_alt)
  then show ?thesis by (cases c) simp_all
qed

section \<open>Facts about the enumeration and the handlers\<close>

lemma get_audio_files_inner_eq:
  "get_audio_files_inner root files acc =
     acc @ map (join root) (filter (\<lambda>f. lower (snd (splitext f)) \<notin> set BLACKLIST_EXTENSIONS) files)"
  by (induction files arbitrary: acc) (simp_all add: Let_def)

lemma get_audio_files_outer_eq:
  "get_audio_files_outer walk acc =
     acc @ concat (map (\<lambda>(root, dirs, files).
        map (join root) (filter (\<lambda>f. lower (snd (splitext f)) \<notin> set BLACKLIST_EXTENSIONS) files)) walk)"
  by (induction walk acc rule: get_audio_files_outer.induct) (simp_all add: get_audio_files_inner_eq)

lemma filter_joined:
  assumes "list_all (\<lambda>f. CHR ''/'' \<notin> set f) files"
  shows "map (join root) (filter (\<lambda>f. lower (snd (splitext f)) \<notin> set BLACKLIST_EXTENSIONS) files)
         = filter (\<lambda>p. \<not> blacklisted p) (map (join root) files)"
  using assms by (induction files) (simp_all add: blacklisted_def ext_join)

lemma get_audio_files_paths:
  assumes "bare_names walk"
  shows "get_audio_files walk = filter (\<lambda>p. \<not> blacklisted p) (walked_paths walk)"
  using assms unfolding get_audio_files_def get_audio_files_outer_eq walked_paths_def bare_names_def
  by (induction walk) (auto simp: filter_joined)

lemma stop_preview_audio_frame [simp]:
  "sp (stop_preview_audio e s) = sp s"
  "selected_directory (stop_preview_audio e s) = selected_directory s"
  "playlist_id (stop_preview_audio e s) = playlist_id s"
  "playlist_name (stop_preview_audio e s) = playlist_name s"
  "audio_files (stop_preview_audio e s) = audio_files s"
  "skipped_songs (stop_preview_audio e s) = skipped_songs s"
  "current_index (stop_preview_audio e s) = current_index s"
  "current_filepath (stop_preview_audio e s) = current_filepath s"
  "query_var (stop_preview_audio e s) = query_var s"
  "url_var (stop_preview_audio e s) = url_var s"
  "track_var (stop_preview_audio e s) = track_var s"
  "results_frame (stop_preview_audio e s) = results_frame s"
  "file_prompt_shown (stop_preview_audio e s) = file_prompt_shown s"
  "api_log (stop_preview_audio e s) = api_log s"
  "messages (stop_preview_audio e s) = messages s"
  "mixer_music (stop_preview_audio e s) = None"
  "preview_temp_path (stop_preview_audio e s) = None"
  by (simp_all add: stop_preview_audio_def Let_def split: option.splits)

lemma created_ids_simps [simp]:
  "created_ids [] = []"
  "created_ids (x # l) = created_of x @ created_ids l"
  "created_ids (l @ m) = created_ids l @ created_ids m"
  by (simp_all add: created_ids_def)

lemma appended_simps [simp]:
  "appended [] = []"
  "appended (x # l) = appended_of x @ appended l"
  "appended (l @ m) = appended l @ appended m"
  by (simp_all add: appended_def)

lemma search_spotify_frame [simp]:
  "sp (snd (search_spotify e s)) = sp s"
  "selected_directory (snd (search_spotify e s)) = selected_directory s"
  "playlist_id (snd (search_spotify e s)) = playlist_id s"
  "playlist_name (snd (search_spotify e s)) = playlist_name s"
  "audio_files (snd (search_spotify e s)) = audio_files s"
  "skipped_songs (snd (search_spotify e s)) = skipped_songs s"
  "current_index (snd (search_spotify e s)) = current_index s"
  "current_filepath (snd (search_spotify e s)) = current_filepath s"
  "query_var (snd (search_spotify e s)) = query_var s"
  "url_var (snd (search_spotify e s)) = url_var s"
  "file_prompt_shown (snd (search_spotify e s)) = file_prompt_shown s"
  "messages (snd (search_spotify e s)) = messages s"
  "created_ids (api_log (snd (search_spotify e s))) = created_ids (api_log s)"
  "appended (api_log (snd (search_spotify e s))) = appended (api_log s)"
  by (simp_all add: search_spotify_def Let_def log_call_def created_of_def appended_of_def
        split: option.splits sum.splits list.splits)

lemma show_file_prompt_frame [simp]:
  "sp (snd (show_file_prompt e s)) = sp s"
  "selected_directory (snd (show_file_prompt e s)) = selected_directory s"
  "playlist_id (snd (show_file_prompt e s)) = playlist_id s"
  "playlist_name (snd (show_file_prompt e s)) = playlist_name s"
  "audio_files (snd (show_file_prompt e s)) = audio_files s"
  "skipped_songs (snd (show_file_prompt e s)) = skipped_songs s"
  "current_index (snd (show_file_prompt e s)) = current_index s"
  "created_ids (api_log (snd (show_file_prompt e s))) = created_ids (api_log s)"
  "appended (api_log (snd (show_file_prompt e s))) = appended (api_log s)"
  by (simp_all add: show_file_prompt_def Let_def show_message_def split: prod.splits)

section \<open>Candidate files\<close>

lemma select_directory_files:
  "directory \<noteq> [] \<Longrightarrow>
   audio_files (snd (select_directory directory name walk e s)) =
     sort_key (\<lambda>x. lower (basename x)) (get_audio_files walk)"
  by (simp add: select_directory_def)

text \<open>
  Claim C1. Selecting a directory stores, as the candidate files, exactly the walked paths
  whose extension, compared case-insensitively, is not one of \<open>.jpg .jpeg .png .gif\<close>
  (each as often as the walk lists it), in ascending order of the lower-cased basename.
  The walk lists bare file names, as \<open>os.walk\<close> does.
\<close>

theorem candidate_files_enumerated:
  assumes "directory \<noteq> []" and "bare_names walk"
  shows "mset (audio_files (snd (select_directory directory name walk e s))) =
           mset (filter (\<lambda>p. \<not> blacklisted p) (walked_paths walk))
         \<and> sorted (map (\<lambda>p. lower (basename p))
                     (audio_files (snd (select_directory directory name walk e s))))"
  using assms by (simp add: select_directory_files get_audio_files_paths)

lemma music_walk_files:
  "audio_files (snd (select_directory ''/m'' (Some ''Mix'') music_walk quiet_env (init_app True {})))
   = [''/m/sub/.gif'', ''/m/a.mp3'', ''/m/b.mp3'', ''/m/sub/C.flac'']"
  by code_simp

lemma accent_walk_files:
  "audio_files (snd (select_directory ''/m'' (Some ''Mix'') accent_walk quiet_env (init_app True {})))
   = [''/m/b.mp3'', ''/m/'' @ CHR 0xE0 # ''.mp3'', ''/m/'' @ CHR 0xC9 # ''.mp3'']"
  by code_simp

text \<open>
  The property at a directory with a sub-directory: the two images are left out, the
  dot-file \<open>.gif\<close> has no extension and stays, and \<open>C.flac\<close> sorts after \<open>b.mp3\<close>. And
  at a directory with accented names: the capital \<open>0xC9\<close> sorts by its small letter, after
  \<open>0xE0\<close>, and both after \<open>b\<close>.
\<close>

theorem candidate_files_enumerated_witness:
  "mset (audio_files (snd (select_directory ''/m'' (Some ''Mix'') music_walk quiet_env (init_app True {})))) =
     mset (filter (\<lambda>p. \<not> blacklisted p) (walked_paths music_walk))
   \<and> sorted (map (\<lambda>p. lower (basename p))
         (audio_files (snd (select_directory ''/m'' (Some ''Mix'') music_walk quiet_env (init_app True {})))))
   \<and> audio_files (snd (select_directory ''/m'' (Some ''Mix'') music_walk quiet_env (init_app True {})))
       = [''/m/sub/.gif'', ''/m/a.mp3'', ''/m/b.mp3'', ''/m/sub/C.flac'']
   \<and> sorted (map (\<lambda>p. lower (basename p))
         (audio_files (snd (select_directory ''/m'' (Some ''Mix'') accent_walk quiet_env (init_app True {})))))
   \<and> audio_files (snd (select_directory ''/m'' (Some ''Mix'') accent_walk quiet_env (init_app True {})))
       = [''/m/b.mp3'', ''/m/'' @ CHR 0xE0 # ''.mp3'', ''/m/'' @ CHR 0xC9 # ''.mp3'']"
proof -
  have b: "bare_names music_walk" by (simp add: bare_names_def music_walk_def)
  have c: "bare_names accent_walk" by (simp add: bare_names_def accent_walk_def)
  have d: "''/m'' \<noteq> []" by simp
  show ?thesis
    using candidate_files_enumerated[OF d b, of "Some ''Mix''" quiet_env "init_app True {}"]
          candidate_files_enumerated[OF d c, of "Some ''Mix''" quiet_env "init_app True {}"]
          music_walk_files accent_walk_files
    by blast
qed

section \<open>The default query\<close>

lemma show_file_prompt_query:
  assumes "current_index s < length (audio_files s)"
  shows "query_var (snd (show_file_prompt e s)) =
           Some (prefill_text (local_title (snd (show_file_prompt e s)))
                              (local_artist (snd (show_file_prompt e s)))
                              (basename (audio_files s ! current_index s)))"
    and "current_filepath (snd (show_file_prompt e s)) = Some (audio_files s ! current_index s)"
    and "local_title (snd (show_file_prompt e s)) = fst (get_file_metadata (mutagen_read e))"
    and "local_artist (snd (show_file_prompt e s)) = fst (snd (get_file_metadata (mutagen_read e)))"
proof -
  obtain t a d where m: "get_file_metadata (mutagen_read e) = (t, a, d)"
    by (cases "get_file_metadata (mutagen_read e)") auto
  define s1 where "s1 = s\<lparr>current_filepath := Some (audio_files s ! current_index s),
                     local_title := t, local_artist := a, local_duration_str := d,
                     query_var := Some (prefill_text t a (basename (audio_files s ! current_index s))),
                     results_frame := Some [], url_var := Some [], file_prompt_shown := True\<rparr>"
  have eq: "show_file_prompt e s = search_spotify e s1"
    using assms by (simp add: show_file_prompt_def Let_def m s1_def)
  have lt: "local_title (snd (search_spotify e s1)) = local_title s1"
    and la: "local_artist (snd (search_spotify e s1)) = local_artist s1"
    by (simp_all add: search_spotify_def Let_def log_call_def stop_preview_audio_def
          split: option.splits sum.splits list.splits)
  show "query_var (snd (show_file_prompt e s)) =
           Some (prefill_text (local_title (snd (show_file_prompt e s)))
                              (local_artist (snd (show_file_prompt e s)))
                              (basename (audio_files s ! current_index s)))"
    unfolding eq lt la by (simp add: s1_def)
  show "current_filepath (snd (show_file_prompt e s)) = Some (audio_files s ! current_index s)"
    unfolding eq by (simp add: s1_def)
  show "local_title (snd (show_file_prompt e s)) = fst (get_file_metadata (mutagen_read e))"
    unfolding eq lt by (simp add: s1_def m)
  show "local_artist (snd (show_file_prompt e s)) = fst (snd (get_file_metadata (mutagen_read e)))"
    unfolding eq la by (simp add: s1_def m)
qed

text \<open>
  Claim C2. When a file is presented, the query entry is prefilled from the local title and
  artist just read: with both present (not \<open>None\<close>, not empty) it is the title, a
  space and the artist; with exactly one present it is that field; with neither it is the
  file name without the extension \<open>os.path.splitext\<close> splits off.
\<close>

theorem default_query_derived:
  assumes "current_index s < length (audio_files s)"
    and "show_file_prompt e s = (r, s')"
  shows "(\<forall>t a. local_title s' = Some t \<and> t \<noteq> [] \<and> local_artist s' = Some a \<and> a \<noteq> []
            \<longrightarrow> query_var s' = Some (t @ '' '' @ a))
       \<and> (\<forall>t. local_title s' = Some t \<and> t \<noteq> [] \<and> \<not> truthy (local_artist s')
            \<longrightarrow> query_var s' = Some t)
       \<and> (\<forall>a. \<not> truthy (local_title s') \<and> local_artist s' = Some a \<and> a \<noteq> []
            \<longrightarrow> query_var s' = Some a)
       \<and> (\<not> truthy (local_title s') \<and> \<not> truthy (local_artist s')
            \<longrightarrow> (\<exists>base ext. splitext (basename (audio_files s ! current_index s)) = (base, ext)
                   \<and> base @ ext = basename (audio_files s ! current_index s)
                   \<and> query_var s' = Some base))
       \<and> local_title s' = fst (get_file_metadata (mutagen_read e))
       \<and> local_artist s' = fst (snd (get_file_metadata (mutagen_read e)))
       \<and> current_filepath s' = Some (audio_files s ! current_index s)"
proof -
  have s': "s' = snd (show_file_prompt e s)" using assms(2) by simp
  note q = show_file_prompt_query[OF assms(1), of e, folded s']
  have c: "fst (splitext (basename (audio_files s ! current_index s)))
             @ snd (splitext (basename (audio_files s ! current_index s)))
           = basename (audio_files s ! current_index s)"
    by (rule splitext_concat)
  have 1: "\<forall>t a. local_title s' = Some t \<and> t \<noteq> [] \<and> local_artist s' = Some a \<and> a \<noteq> []
            \<longrightarrow> query_var s' = Some (t @ '' '' @ a)"
    unfolding q(1) by (simp add: prefill_text_def truthy_def)
  have 2: "\<forall>t. local_title s' = Some t \<and> t \<noteq> [] \<and> \<not> truthy (local_artist s')
            \<longrightarrow> query_var s' = Some t"
    unfolding q(1) by (simp add: prefill_text_def truthy_def)
  have 3: "\<forall>a. \<not> truthy (local_title s') \<and> local_artist s' = Some a \<and> a \<noteq> []
            \<longrightarrow> query_var s' = Some a"
    unfolding q(1) by (simp add: prefill_text_def truthy_def)
  have 4: "\<not> truthy (local_title s') \<and> \<not> truthy (local_artist s')
            \<longrightarrow> (\<exists>base ext. splitext (basename (audio_files s ! current_index s)) = (base, ext)
                   \<and> base @ ext = basename (audio_files s ! current_index s)
                   \<and> query_var s' = Some base)"
  proof
    assume n: "\<not> truthy (local_title s') \<and> \<not> truthy (local_artist s')"
    have "query_var s' = Some (fst (splitext (basename (audio_files s ! current_index s))))"
      unfolding q(1) using n by (simp add: prefill_text_def)
    with c show "\<exists>base ext. splitext (basename (audio_files s ! current_index s)) = (base, ext)
                   \<and> base @ ext = basename (audio_files s ! current_index s)
                   \<and> query_var s' = Some base"
      by (metis prod.collapse)
  qed
  from 1 2 3 4 q(2) q(3) q(4) show ?thesis by blast
qed

lemma present_tagged:
  "show_file_prompt tagged_env (two_started\<lparr>current_index := 1\<rparr>)
     = (None, snd (show_file_prompt tagged_env (two_started\<lparr>current_index := 1\<rparr>)))"
  "local_title (snd (show_file_prompt tagged_env (two_started\<lparr>current_index := 1\<rparr>))) = Some ''Song B''"
  "local_artist (snd (show_file_prompt tagged_env (two_started\<lparr>current_index := 1\<rparr>))) = Some ''Artist X''"
  "current_index (two_started\<lparr>current_index := 1\<rparr>) < length (audio_files (two_started\<lparr>current_index := 1\<rparr>))"
  by code_simp+

lemma present_untagged:
  "show_file_prompt quiet_env two_started = (None, snd (show_file_prompt quiet_env two_started))"
  "local_title (snd (show_file_prompt quiet_env two_started)) = None"
  "local_artist (snd (show_file_prompt quiet_env two_started)) = None"
  "current_index two_started < length (audio_files two_started)"
  "splitext (basename (audio_files two_started ! current_index two_started)) = (''a'', ''.mp3'')"
  "audio_files two_started = [''/music/a.mp3'', ''/music/b.mp3'']"
  by code_simp+

text \<open>
  The end-to-end scenario: the tagged \<open>b.mp3\<close> is presented with the query
  "Song B Artist X", the untagged \<open>a.mp3\<close> with the query "a".
\<close>

theorem default_query_derived_witness:
  "query_var (snd (show_file_prompt tagged_env (two_started\<lparr>current_index := 1\<rparr>)))
     = Some ''Song B Artist X''
   \<and> query_var (snd (show_file_prompt quiet_env two_started)) = Some ''a''
   \<and> audio_files two_started = [''/music/a.mp3'', ''/music/b.mp3'']"
proof -
  define X where "X = snd (show_file_prompt tagged_env (two_started\<lparr>current_index := 1\<rparr>))"
  define Y where "Y = snd (show_file_prompt quiet_env two_started)"
  note t = default_query_derived[OF present_tagged(4) present_tagged(1), folded X_def]
  note u = default_query_derived[OF present_untagged(4) present_untagged(1), folded Y_def]
  from t have "local_title X = Some ''Song B'' \<and> ''Song B'' \<noteq> [] \<and>
               local_artist X = Some ''Artist X'' \<and> ''Artist X'' \<noteq> []
               \<longrightarrow> query_var X = Some (''Song B'' @ '' '' @ ''Artist X'')"
    by blast
  then have a: "query_var X = Some ''Song B Artist X''"
    using present_tagged(2,3)[folded X_def] by simp
  from u have "\<not> truthy (local_title Y) \<and> \<not> truthy (local_artist Y)
            \<longrightarrow> (\<exists>base ext. splitext (basename (audio_files two_started ! current_index two_started)) = (base, ext)
                   \<and> base @ ext = basename (audio_files two_started ! current_index two_started)
                   \<and> query_var Y = Some base)"
    by blast
  then have b: "query_var Y = Some ''a''"
    using present_untagged(2,3)[folded Y_def] present_untagged(5) by (simp add: truthy_def)
  from a b present_untagged(6) show ?thesis unfolding X_def Y_def by blast
qed

section \<open>What each handler leaves alone\<close>

lemma go_to_next_file_frame [simp]:
  "sp (snd (go_to_next_file e s)) = sp s"
  "selected_directory (snd (go_to_next_file e s)) = selected_directory s"
  "playlist_id (snd (go_to_next_file e s)) = playlist_id s"
  "playlist_name (snd (go_to_next_file e s)) = playlist_name s"
  "audio_files (snd (go_to_next_file e s)) = audio_files s"
  "skipped_songs (snd (go_to_next_file e s)) = skipped_songs s"
  "current_index (snd (go_to_next_file e s)) = current_index s + 1"
  "created_ids (api_log (snd (go_to_next_file e s))) = created_ids (api_log s)"
  "appended (api_log (snd (go_to_next_file e s))) = appended (api_log s)"
  by (simp_all add: go_to_next_file_def Let_def stop_local_audio_def)

lemma create_playlist_frame [simp]:
  "sp (snd (create_playlist e s)) = sp s"
  "selected_directory (snd (create_playlist e s)) = selected_directory s"
  "playlist_name (snd (create_playlist e s)) = playlist_name s"
  "audio_files (snd (create_playlist e s)) = audio_files s"
  "skipped_songs (snd (create_playlist e s)) = skipped_songs s"
  "current_index (snd (create_playlist e s)) = current_index s"
  "current_filepath (snd (create_playlist e s)) = current_filepath s"
  "query_var (snd (create_playlist e s)) = query_var s"
  "url_var (snd (create_playlist e s)) = url_var s"
  "track_var (snd (create_playlist e s)) = track_var s"
  "results_frame (snd (create_playlist e s)) = results_frame s"
  "file_prompt_shown (snd (create_playlist e s)) = file_prompt_shown s"
  "messages (snd (create_playlist e s)) = messages s"
  "mixer_music (snd (create_playlist e s)) = mixer_music s"
  "preview_temp_path (snd (create_playlist e s)) = preview_temp_path s"
  "disk (snd (create_playlist e s)) = disk s"
  "appended (api_log (snd (create_playlist e s))) = appended (api_log s)"
  by (simp_all add: create_playlist_def Let_def log_call_def appended_of_def split: sum.splits)


lemma sp_playlist_add_items_frame [simp]:
  "sp (snd (sp_playlist_add_items e pid items s)) = sp s"
  "selected_directory (snd (sp_playlist_add_items e pid items s)) = selected_directory s"
  "playlist_id (snd (sp_playlist_add_items e pid items s)) = playlist_id s"
  "playlist_name (snd (sp_playlist_add_items e pid items s)) = playlist_name s"
  "audio_files (snd (sp_playlist_add_items e pid items s)) = audio_files s"
  "skipped_songs (snd (sp_playlist_add_items e pid items s)) = skipped_songs s"
  "current_index (snd (sp_playlist_add_items e pid items s)) = current_index s"
  "current_filepath (snd (sp_playlist_add_items e pid items s)) = current_filepath s"
  "query_var (snd (sp_playlist_add_items e pid items s)) = query_var s"
  "url_var (snd (sp_playlist_add_items e pid items s)) = url_var s"
  "track_var (snd (sp_playlist_add_items e pid items s)) = track_var s"
  "results_frame (snd (sp_playlist_add_items e pid items s)) = results_frame s"
  "file_prompt_shown (snd (sp_playlist_add_items e pid items s)) = file_prompt_shown s"
  "messages (snd (sp_playlist_add_items e pid items s)) = messages s"
  "mixer_music (snd (sp_playlist_add_items e pid items s)) = mixer_music s"
  "preview_temp_path (snd (sp_playlist_add_items e pid items s)) = preview_temp_path s"
  "disk (snd (sp_playlist_add_items e pid items s)) = disk s"
  "created_ids (api_log (snd (sp_playlist_add_items e pid items s))) = created_ids (api_log s)"
  by (simp_all add: sp_playlist_add_items_def log_call_def created_of_def split: option.splits)


lemma skip_file_effect:
  assumes "current_index s < length (audio_files s)"
  shows "skipped_songs (snd (skip_file e s)) =
           skipped_songs s @ [basename (audio_files s ! current_index s)]"
    and "current_index (snd (skip_file e s)) = current_index s + 1"
    and "audio_files (snd (skip_file e s)) = audio_files s"
    and "playlist_id (snd (skip_file e s)) = playlist_id s"
    and "created_ids (api_log (snd (skip_file e s))) = created_ids (api_log s)"
    and "appended (api_log (snd (skip_file e s))) = appended (api_log s)"
  using assms by (simp_all add: skip_file_def Let_def)

section \<open>Skipping\<close>

lemma take_Suc_drop:
  "i < length xs \<Longrightarrow> take (Suc n) (drop i xs) = xs ! i # take n (drop (Suc i) xs)"
  by (metis Cons_nth_drop_Suc take_Suc_Cons)

text \<open>
  Claim C7. Every skip appends the basename of the current file to the end of the skipped
  list: after skipping the next \<open>n\<close> files the list has grown by exactly their
  basenames, in skip order. No skip creates a playlist or appends a track, and the stored
  playlist identifier stays as it was.
\<close>

theorem skip_bookkeeping:
  assumes "current_index s + length es \<le> length (audio_files s)"
  shows "skipped_songs (run (map (Pair SkipButton) es) s) =
           skipped_songs s @ map basename (take (length es) (drop (current_index s) (audio_files s)))
       \<and> created_ids (api_log (run (map (Pair SkipButton) es) s)) = created_ids (api_log s)
       \<and> appended (api_log (run (map (Pair SkipButton) es) s)) = appended (api_log s)
       \<and> playlist_id (run (map (Pair SkipButton) es) s) = playlist_id s
       \<and> current_index (run (map (Pair SkipButton) es) s) = current_index s + length es"
  using assms
proof (induction es arbitrary: s)
  case Nil
  then show ?case by simp
next
  case (Cons e es)
  then have lt: "current_index s < length (audio_files s)" by simp
  note k = skip_file_effect[OF lt, of e]
  have "current_index (snd (skip_file e s)) + length es \<le> length (audio_files (snd (skip_file e s)))"
    using Cons.prems by (simp add: k)
  from Cons.IH[OF this] show ?case
    by (simp add: k take_Suc_drop[OF lt])
qed

lemma two_started_facts:
  "current_index two_started + length [quiet_env, quiet_env] \<le> length (audio_files two_started)"
  "skipped_songs two_started = []"
  "map basename (take (length [quiet_env, quiet_env]) (drop (current_index two_started) (audio_files two_started)))
     = [''a.mp3'', ''b.mp3'']"
  "appended (api_log two_started) = []"
  "created_ids (api_log two_started) = []"
  by code_simp+

text \<open>
  Skipping \<open>a.mp3\<close> and then \<open>b.mp3\<close> of a fresh session leaves the skipped list
  \<open>["a.mp3", "b.mp3"]\<close> and the catalog untouched.
\<close>

theorem skip_bookkeeping_witness:
  "skipped_songs (run (map (Pair SkipButton) [quiet_env, quiet_env]) two_started) = [''a.mp3'', ''b.mp3'']
   \<and> appended (api_log (run (map (Pair SkipButton) [quiet_env, quiet_env]) two_started)) = []
   \<and> created_ids (api_log (run (map (Pair SkipButton) [quiet_env, quiet_env]) two_started)) = []"
  using skip_bookkeeping[OF two_started_facts(1)] two_started_facts(2,3,4,5)
  by simp

section \<open>The cursor\<close>

lemma playback_index [simp]:
  "current_index (play_local_audio e s) = current_index s"
  "current_index (stop_local_audio s) = current_index s"
  "current_index (play_spotify_preview url e s) = current_index s"
  by (simp_all add: play_local_audio_def stop_local_audio_def play_spotify_preview_def Let_def
        show_message_def split: option.splits)

lemma create_playlist_outcome:
  assumes "playlist_id s = None"
  shows "(fst (create_playlist e s) \<noteq> None) = creation_raises e s"
    and "(playlist_id (snd (create_playlist e s)) \<noteq> None) = playlist_at_hand e s"
  using assms
  by (auto simp: create_playlist_def creation_raises_def playlist_at_hand_def creation_returns_def
        Let_def log_call_def split: sum.splits)

lemma stored_playlist_outcome:
  assumes "playlist_id s \<noteq> None"
  shows "\<not> creation_raises e s" and "playlist_at_hand e s"
  using assms by (auto simp: creation_raises_def playlist_at_hand_def)

lemma sp_playlist_add_items_outcome:
  "(fst (sp_playlist_add_items e pid items s) = None) = (sp s \<and> pid \<noteq> None \<and> add_items_result e = None)"
  by (auto simp: sp_playlist_add_items_def split: option.splits)

lemma sp_playlist_add_items_raised:
  "fst (sp_playlist_add_items e pid items s) = Some x \<Longrightarrow> sp s \<Longrightarrow> pid = Some p \<Longrightarrow>
   add_items_result e \<noteq> None"
  by (auto simp: sp_playlist_add_items_def split: option.splits)

lemma add_to_playlist_index:
  "current_index (snd (add_to_playlist e s)) =
     current_index s + (if completes AddToPlaylistButton e s then 1 else 0)"
proof (cases "playlist_id s")
  case None
  note o = create_playlist_outcome[OF None, of e]
  show ?thesis
  proof (cases "creation_raises e s")
    case True
    then have "fst (create_playlist e s) \<noteq> None" using o(1) by simp
    then show ?thesis using None True
      by (auto simp: add_to_playlist_def Let_def split_beta completes_def split: option.splits)
  next
    case False
    then have r: "fst (create_playlist e s) = None" using o(1) by simp
    show ?thesis
    proof (cases "track_var s")
      case tn: None
      then show ?thesis using None r
        by (simp add: add_to_playlist_def Let_def split_beta completes_def)
    next
      case (Some u)
      show ?thesis using None r Some False o(2)
        by (auto simp: add_to_playlist_def Let_def split_beta completes_def append_goes_through_def
              sp_playlist_add_items_outcome dest: sp_playlist_add_items_raised split: option.splits)
    qed
  qed
next
  case (Some p)
  then have n: "playlist_id s \<noteq> None" by simp
  note o = stored_playlist_outcome[OF n, of e]
  show ?thesis
  proof (cases "track_var s")
    case None
    then show ?thesis using Some
      by (simp add: add_to_playlist_def Let_def split_beta completes_def)
  next
    case u: (Some u)
    show ?thesis using Some u o
      by (auto simp: add_to_playlist_def Let_def split_beta completes_def append_goes_through_def
            sp_playlist_add_items_outcome dest: sp_playlist_add_items_raised split: option.splits)
  qed
qed


lemma add_track_by_url_try_index:
  "current_index (snd (add_track_by_url_try u e s)) =
     current_index s +
       (if sp s \<and> playlist_id s \<noteq> None \<and> add_items_result e = None \<and>
           (case track_result e of
              Inl x \<Rightarrow> False
            | Inr None \<Rightarrow> False
            | Inr (Some info) \<Rightarrow> info_type info = ''track'')
        then 1 else 0)"
proof (cases "sp s")
  case False
  then show ?thesis by (simp add: add_track_by_url_try_def)
next
  case True
  show ?thesis
  proof (cases "track_result e")
    case (Inl x)
    with True show ?thesis by (simp add: add_track_by_url_try_def log_call_def)
  next
    case (Inr found)
    show ?thesis
    proof (cases found)
      case None
      with True Inr show ?thesis
        by (simp add: add_track_by_url_try_def log_call_def show_message_def Let_def)
    next
      case (Some info)
      define s1 where "s1 = log_call (TrackLookup u) Returned s"
      have s1: "sp s1 = sp s" "playlist_id s1 = playlist_id s" "current_index s1 = current_index s"
        by (simp_all add: s1_def log_call_def)
      show ?thesis
      proof (cases "info_type info = ''track''")
        case False
        with True Inr Some show ?thesis
          by (simp add: add_track_by_url_try_def log_call_def show_message_def Let_def)
      next
        case track: True
        have eq: "add_track_by_url_try u e s =
            (case fst (sp_playlist_add_items e (playlist_id s1) [info_uri info] s1) of
               Some x \<Rightarrow> (Some x, snd (sp_playlist_add_items e (playlist_id s1) [info_uri info] s1))
             | None \<Rightarrow> go_to_next_file e (show_message (ShowInfo ''Success'')
                         (snd (sp_playlist_add_items e (playlist_id s1) [info_uri info] s1))))"
          using True Inr Some track
          unfolding s1_def by (simp add: add_track_by_url_try_def Let_def split_beta)
        show ?thesis
        proof (cases "fst (sp_playlist_add_items e (playlist_id s1) [info_uri info] s1)")
          case None
          then have "sp s \<and> playlist_id s \<noteq> None \<and> add_items_result e = None"
            using sp_playlist_add_items_outcome[of e "playlist_id s1" "[info_uri info]" s1] s1 by simp
          with None eq Inr Some track s1 show ?thesis
            by (simp add: show_message_def)
        next
          case (Some x)
          then have "\<not> (sp s \<and> playlist_id s \<noteq> None \<and> add_items_result e = None)"
            using sp_playlist_add_items_outcome[of e "playlist_id s1" "[info_uri info]" s1] s1 by simp
          with Some eq s1 show ?thesis by auto
        qed
      qed
    qed
  qed
qed

lemma add_track_by_url_index:
  "current_index (snd (add_track_by_url e s)) =
     current_index s + (if completes AddByUrlButton e s then 1 else 0)"
proof (cases "url_var s")
  case None
  then show ?thesis by (simp add: add_track_by_url_def completes_def)
next
  case (Some u)
  show ?thesis
  proof (cases "strip u = []")
    case True
    with Some show ?thesis by (simp add: add_track_by_url_def completes_def show_message_def)
  next
    case False
    define ok where "ok \<longleftrightarrow> (case track_result e of
              Inl x \<Rightarrow> False
            | Inr None \<Rightarrow> False
            | Inr (Some info) \<Rightarrow> info_type info = ''track'')"
    have c: "completes AddByUrlButton e s = (append_goes_through e s \<and> ok)"
      using Some False by (simp add: completes_def ok_def)
    show ?thesis
    proof (cases "playlist_id s")
      case (Some p)
      then have n: "playlist_id s \<noteq> None" by simp
      have "add_track_by_url e s =
              (case fst (add_track_by_url_try (strip u) e s) of
                 Some x \<Rightarrow> (None, show_message (ShowError ''Invalid URL'')
                                    (snd (add_track_by_url_try (strip u) e s)))
               | None \<Rightarrow> (None, snd (add_track_by_url_try (strip u) e s)))"
        using \<open>url_var s = Some u\<close> False Some
        by (simp add: add_track_by_url_def Let_def split_beta)
      then have "current_index (snd (add_track_by_url e s))
                 = current_index (snd (add_track_by_url_try (strip u) e s))"
        by (simp add: show_message_def split: option.splits)
      then show ?thesis
        using n stored_playlist_outcome[OF n, of e]
        by (simp add: add_track_by_url_try_index c append_goes_through_def ok_def)
    next
      case None
      note o = create_playlist_outcome[OF None, of e]
      define s1 where "s1 = snd (create_playlist e s)"
      have s1: "sp s1 = sp s" "current_index s1 = current_index s" by (simp_all add: s1_def)
      show ?thesis
      proof (cases "creation_raises e s")
        case True
        then have "fst (create_playlist e s) \<noteq> None" using o(1) by simp
        then have "current_index (snd (add_track_by_url e s)) = current_index s"
          using \<open>url_var s = Some u\<close> False None
          by (auto simp: add_track_by_url_def Let_def split_beta)
        moreover have "\<not> playlist_at_hand e s"
          using True by (auto simp: creation_raises_def playlist_at_hand_def)
        ultimately show ?thesis by (simp add: c append_goes_through_def)
      next
        case nr: False
        then have r: "fst (create_playlist e s) = None" using o(1) by simp
        have "add_track_by_url e s =
              (case fst (add_track_by_url_try (strip u) e s1) of
                 Some x \<Rightarrow> (None, show_message (ShowError ''Invalid URL'')
                                    (snd (add_track_by_url_try (strip u) e s1)))
               | None \<Rightarrow> (None, snd (add_track_by_url_try (strip u) e s1)))"
          using \<open>url_var s = Some u\<close> False None r
          unfolding s1_def by (simp add: add_track_by_url_def Let_def split_beta)
        then have "current_index (snd (add_track_by_url e s))
                   = current_index (snd (add_track_by_url_try (strip u) e s1))"
          by (simp add: show_message_def split: option.splits)
        moreover have "(playlist_id s1 \<noteq> None) = playlist_at_hand e s"
          using o(2) by (simp add: s1_def)
        ultimately show ?thesis
          using s1 by (simp add: add_track_by_url_try_index c append_goes_through_def ok_def)
      qed
    qed
  qed
qed

lemma skip_file_index:
  "current_index (snd (skip_file e s)) =
     current_index s + (if completes SkipButton e s then 1 else 0)"
  by (simp add: skip_file_def Let_def completes_def)

lemma handle_index_exact:
  assumes "\<not> is_select ev"
  shows "current_index (snd (handle ev e s)) =
           current_index s + (if completes ev e s then 1 else 0)"
proof (cases ev)
  case (SelectDirectory d n w)
  with assms show ?thesis by (simp add: is_select_def)
next
  case AddByUrlButton
  then show ?thesis by (simp add: add_track_by_url_index)
next
  case AddToPlaylistButton
  then show ?thesis by (simp add: add_to_playlist_index)
next
  case SkipButton
  then show ?thesis by (simp add: skip_file_index)
qed (auto simp: completes_def split: option.splits)

text \<open>
  Claim C6. Within a session (no new directory selected) the cursor after any run of
  events is where it started plus the number of completed skip and add operations in the
  run, so it never decreases; every event that is a completed skip or add advances it by
  exactly one, and every other event leaves it where it is.
\<close>

theorem cursor_monotone:
  "(in_session evs \<longrightarrow>
      current_index (run evs s) = current_index s + completed_count evs s
      \<and> current_index s \<le> current_index (run evs s))
   \<and> (\<not> is_select ev \<longrightarrow>
        current_index (snd (handle ev e s)) = current_index s + (if completes ev e s then 1 else 0))"
proof -
  have "in_session evs \<Longrightarrow> current_index (run evs s) = current_index s + completed_count evs s"
  proof (induction evs arbitrary: s)
    case Nil
    then show ?case by simp
  next
    case (Cons x evs)
    obtain ev' e' where x: "x = (ev', e')" by (cases x)
    from Cons.prems have n: "\<not> is_select ev'" and r: "in_session evs"
      by (simp_all add: x in_session_def)
    from Cons.IH[OF r, of "snd (handle ev' e' s)"] handle_index_exact[OF n, of e' s]
    show ?case by (simp add: x)
  qed
  then show ?thesis using handle_index_exact[of ev e s] by simp
qed

lemma skip_add_type_add_skip_facts:
  "in_session skip_add_type_add_skip"
  "completed_count skip_add_type_add_skip three_started = 3"
  "current_index three_started = 0"
  "length skip_add_type_add_skip = 5"
  by code_simp+

text \<open>
  The first file is skipped, the second added by search, a reference is typed and the
  third file added by URL, and a last skip finds no file: of five events three are
  completed operations, and the cursor is at 3.
\<close>

theorem cursor_monotone_witness:
  "current_index (run skip_add_type_add_skip three_started) = 3
   \<and> completed_count skip_add_type_add_skip three_started = 3
   \<and> length skip_add_type_add_skip = 5
   \<and> current_index three_started = 0"
  using cursor_monotone[of skip_add_type_add_skip three_started SkipButton quiet_env]
        skip_add_type_add_skip_facts
  by simp

section \<open>An empty selection\<close>

text \<open>
  Claim C10, as amended. When "Add to Playlist" is committed while the selected track URI
  is the empty string, and playlist creation does not raise (an identifier is stored
  already, or no request is made, or both requests return), no track is appended, no file
  name is recorded as skipped, and the cursor still advances by one.
\<close>

theorem empty_selection_passes_over:
  assumes "track_var s = Some []" and "\<not> creation_raises e s"
  shows "appended (api_log (snd (add_to_playlist e s))) = appended (api_log s)
       \<and> skipped_songs (snd (add_to_playlist e s)) = skipped_songs s
       \<and> current_index (snd (add_to_playlist e s)) = current_index s + 1"
proof (cases "playlist_id s")
  case None
  then have "fst (create_playlist e s) = None"
    using create_playlist_outcome(1)[OF None, of e] assms(2) by simp
  with None assms(1) show ?thesis
    by (simp add: add_to_playlist_def Let_def split_beta)
next
  case (Some p)
  with assms(1) show ?thesis
    by (simp add: add_to_playlist_def Let_def split_beta)
qed

text \<open>
  Claim C10 as stated has the cursor advance whenever the selected URI is empty. Here it
  is empty and no playlist is stored; the catalog fails to name the user, the exception
  escapes before the advance, and the cursor stays at the first file.
\<close>

theorem empty_selection_creation_raises:
  "track_var blank_uri_started = Some []
   \<and> current_index blank_uri_started = 0
   \<and> fst (add_to_playlist no_user_env blank_uri_started) = Some SpotifyException
   \<and> current_index (snd (add_to_playlist no_user_env blank_uri_started)) = 0"
  by code_simp

lemma blank_uri_facts:
  "track_var blank_uri_started = Some []"
  "\<not> creation_raises quiet_env blank_uri_started"
  "appended (api_log blank_uri_started) = []"
  "skipped_songs blank_uri_started = []"
  "current_index blank_uri_started = 0"
  by code_simp+

text \<open>
  A search result whose URI is empty is the default selection; committing it passes the
  first file over with nothing recorded.
\<close>

theorem empty_selection_passes_over_witness:
  "appended (api_log (snd (add_to_playlist quiet_env blank_uri_started))) = []
   \<and> skipped_songs (snd (add_to_playlist quiet_env blank_uri_started)) = []
   \<and> current_index (snd (add_to_playlist quiet_env blank_uri_started)) = 1"
  using empty_selection_passes_over[OF blank_uri_facts(1,2)] blank_uri_facts(3,4,5)
  by simp

section \<open>A failed add by direct reference\<close>

lemma add_track_by_url_try_failed:
  assumes "lookup_fails e"
  shows "\<exists>l m. snd (add_track_by_url_try u e s) = s\<lparr>api_log := api_log s @ l, messages := messages s @ m\<rparr>
               \<and> appended l = []
               \<and> (fst (add_track_by_url_try u e s) = None \<longrightarrow> (\<exists>t. m = [ShowError t]))
               \<and> (fst (add_track_by_url_try u e s) \<noteq> None \<longrightarrow> m = [])"
proof (cases "sp s")
  case False
  then have "add_track_by_url_try u e s = (Some AttributeError, s)"
    by (simp add: add_track_by_url_try_def)
  then show ?thesis by (intro exI[of _ "[]"]) simp
next
  case True
  show ?thesis
  proof (cases "track_result e")
    case (Inl x)
    with True have "add_track_by_url_try u e s
        = (Some x, s\<lparr>api_log := api_log s @ [(TrackLookup u, Raised x)]\<rparr>)"
      by (simp add: add_track_by_url_try_def log_call_def)
    then show ?thesis
      by (intro exI[of _ "[(TrackLookup u, Raised x)]"] exI[of _ "[]"]) (simp add: appended_of_def)
  next
    case (Inr found)
    with True assms have "add_track_by_url_try u e s
        = (None, s\<lparr>api_log := api_log s @ [(TrackLookup u, Returned)],
                     messages := messages s @ [ShowError ''Invalid Track'']\<rparr>)"
      by (auto simp: add_track_by_url_try_def log_call_def show_message_def lookup_fails_def Let_def
               split: option.splits)
    then show ?thesis
      by (intro exI[of _ "[(TrackLookup u, Returned)]"] exI[of _ "[ShowError ''Invalid Track'']"])
         (simp add: appended_of_def)
  qed
qed

text \<open>
  Claim C4. When the direct reference does not resolve, or resolves to something that is
  not a track, "Add by URL" leaves the cursor, the skipped list and the tracks appended to
  the playlist as they were, and the workflow stays at the current file: the file list,
  the current path, the prompt and its entries and results are unchanged. When the handler
  returns, it has shown one error box.
\<close>

theorem failed_reference_add_keeps_state:
  assumes "lookup_fails e" and "add_track_by_url e s = (r, s')"
  shows "current_index s' = current_index s
       \<and> skipped_songs s' = skipped_songs s
       \<and> appended (api_log s') = appended (api_log s)
       \<and> audio_files s' = audio_files s
       \<and> current_filepath s' = current_filepath s
       \<and> file_prompt_shown s' = file_prompt_shown s
       \<and> query_var s' = query_var s
       \<and> url_var s' = url_var s
       \<and> results_frame s' = results_frame s
       \<and> (r = None \<longrightarrow> (\<exists>t. messages s' = messages s @ [ShowError t]))"
proof -
  have s': "s' = snd (add_track_by_url e s)" and r: "r = fst (add_track_by_url e s)"
    using assms(2) by simp_all
  show ?thesis
  proof (cases "url_var s")
    case None
    then show ?thesis by (simp add: s' r add_track_by_url_def)
  next
    case (Some u)
    show ?thesis
    proof (cases "strip u = []")
      case True
      with Some show ?thesis by (simp add: s' r add_track_by_url_def show_message_def)
    next
      case False
      define s1 where "s1 = (if playlist_id s = None then snd (create_playlist e s) else s)"
      define r1 where "r1 = (if playlist_id s = None then fst (create_playlist e s) else None)"
      have fr: "current_index s1 = current_index s" "skipped_songs s1 = skipped_songs s"
        "appended (api_log s1) = appended (api_log s)" "audio_files s1 = audio_files s"
        "current_filepath s1 = current_filepath s" "file_prompt_shown s1 = file_prompt_shown s"
        "query_var s1 = query_var s" "url_var s1 = url_var s" "results_frame s1 = results_frame s"
        "messages s1 = messages s"
        by (simp_all add: s1_def)
      show ?thesis
      proof (cases r1)
        case (Some x)
        then have "add_track_by_url e s = (Some x, s1)"
          using \<open>url_var s = Some u\<close> False
          by (auto simp: add_track_by_url_def Let_def split_beta s1_def r1_def split: if_splits)
        then show ?thesis using fr by (simp add: s' r)
      next
        case None
        from add_track_by_url_try_failed[OF assms(1), of "strip u" s1]
        obtain l m where t: "snd (add_track_by_url_try (strip u) e s1)
                               = s1\<lparr>api_log := api_log s1 @ l, messages := messages s1 @ m\<rparr>"
          and l: "appended l = []"
          and m1: "fst (add_track_by_url_try (strip u) e s1) = None \<longrightarrow> (\<exists>t. m = [ShowError t])"
          and m2: "fst (add_track_by_url_try (strip u) e s1) \<noteq> None \<longrightarrow> m = []"
          by (elim exE conjE) (rule that)
        have r1: "playlist_id s = None \<Longrightarrow> fst (create_playlist e s) = None"
          using None by (simp add: r1_def)
        show ?thesis
        proof (cases "fst (add_track_by_url_try (strip u) e s1)")
          case None
          then have "add_track_by_url e s = (None, snd (add_track_by_url_try (strip u) e s1))"
            using \<open>url_var s = Some u\<close> False r1
            by (cases "playlist_id s")
               (simp_all add: add_track_by_url_def Let_def split_beta s1_def)
          with None m1 t l fr show ?thesis by (auto simp: s' r)
        next
          case (Some x)
          then have "add_track_by_url e s =
                       (None, show_message (ShowError ''Invalid URL'')
                                (snd (add_track_by_url_try (strip u) e s1)))"
            using \<open>url_var s = Some u\<close> False r1
            by (cases "playlist_id s")
               (simp_all add: add_track_by_url_def Let_def split_beta s1_def)
          with Some m2 t l fr show ?thesis by (auto simp: s' r show_message_def)
        qed
      qed
    qed
  qed
qed

lemma url_typed_facts:
  "lookup_fails bad_ref_env"
  "add_track_by_url bad_ref_env url_typed = (None, snd (add_track_by_url bad_ref_env url_typed))"
  "current_index url_typed = 0"
  "skipped_songs url_typed = []"
  "appended (api_log url_typed) = []"
  "current_filepath url_typed = Some ''/music/a.mp3''"
  "messages url_typed = []"
  by code_simp+

text \<open>
  A reference the catalog rejects, typed while the first file is presented.
\<close>

theorem failed_reference_add_keeps_state_witness:
  "current_index (snd (add_track_by_url bad_ref_env url_typed)) = 0
   \<and> skipped_songs (snd (add_track_by_url bad_ref_env url_typed)) = []
   \<and> appended (api_log (snd (add_track_by_url bad_ref_env url_typed))) = []
   \<and> current_filepath (snd (add_track_by_url bad_ref_env url_typed)) = Some ''/music/a.mp3''
   \<and> (\<exists>t. messages (snd (add_track_by_url bad_ref_env url_typed)) = [ShowError t])"
  using failed_reference_add_keeps_state[OF url_typed_facts(1) url_typed_facts(2)]
        url_typed_facts(3-7)
  by simp

section \<open>The playlist\<close>

lemma playback_frame [simp]:
  "playlist_id (play_local_audio e s) = playlist_id s"
  "api_log (play_local_audio e s) = api_log s"
  "playlist_id (stop_local_audio s) = playlist_id s"
  "api_log (stop_local_audio s) = api_log s"
  "playlist_id (play_spotify_preview url e s) = playlist_id s"
  "api_log (play_spotify_preview url e s) = api_log s"
  by (simp_all add: play_local_audio_def stop_local_audio_def play_spotify_preview_def Let_def
        show_message_def split: option.splits)

lemma skip_file_frame [simp]:
  "playlist_id (snd (skip_file e s)) = playlist_id s"
  "created_ids (api_log (snd (skip_file e s))) = created_ids (api_log s)"
  "appended (api_log (snd (skip_file e s))) = appended (api_log s)"
  by (simp_all add: skip_file_def Let_def)

lemma select_directory_frame [simp]:
  "playlist_id (snd (select_directory d n w e s)) = playlist_id s"
  "created_ids (api_log (snd (select_directory d n w e s))) = created_ids (api_log s)"
  "appended (api_log (snd (select_directory d n w e s))) = appended (api_log s)"
  by (simp_all add: select_directory_def)




lemma show_message_inv [simp]: "playlist_inv (show_message m s) = playlist_inv s"
  by (simp add: playlist_inv_def show_message_def)


















section \<open>Searching\<close>

text \<open>
  Claim C8, as amended. A search trigger on a presented file first empties the result frame
  and stops the preview, whatever happens next: afterwards nothing is playing, no preview
  path is held, and the frame shows only what this search produced (nothing at all when
  the handler raised). A query that is empty after stripping sends no request and shows no
  message; with no client no request is sent either. With a client, a query that is not
  empty after stripping is sent, stripped, with limit 5. An empty answer shows only the
  "No results found." label, with no message box and nothing selectable; a non-empty
  answer shows one row per track and the add button, with the first track selected.
\<close>

theorem search_trigger:
  assumes "results_frame s = Some old" and "query_var s = Some q"
    and "search_spotify e s = (r, s')"
  shows "mixer_music s' = None \<and> preview_temp_path s' = None
       \<and> (r \<noteq> None \<longrightarrow> results_frame s' = Some [])
       \<and> (strip q = [] \<longrightarrow>
            r = None \<and> results_frame s' = Some [] \<and> api_log s' = api_log s
            \<and> messages s' = messages s)
       \<and> (\<not> sp s \<longrightarrow> api_log s' = api_log s)
       \<and> (strip q \<noteq> [] \<and> sp s \<longrightarrow>
            (\<exists>res. api_log s' = api_log s @ [(Search (strip q) 5, res)]))
       \<and> (strip q \<noteq> [] \<and> sp s \<and> search_result e = Inr [] \<longrightarrow>
            r = None \<and> results_frame s' = Some [NoResultsLabel]
            \<and> filter selectable [NoResultsLabel] = [] \<and> messages s' = messages s)
       \<and> (\<forall>t ts. strip q \<noteq> [] \<and> sp s \<and> search_result e = Inr (t # ts) \<longrightarrow>
            r = None \<and> track_var s' = Some (track_uri t)
            \<and> results_frame s' = Some (map TrackRow (t # ts) @ [AddButton]))"
proof -
  have s': "s' = snd (search_spotify e s)" and r: "r = fst (search_spotify e s)"
    using assms(3) by simp_all
  show ?thesis
  proof (cases "strip q = []")
    case True
    with assms(1,2) show ?thesis
      by (simp add: s' r search_spotify_def Let_def)
  next
    case False
    show ?thesis
    proof (cases "sp s")
      case no: False
      with False assms(1,2) show ?thesis
        by (simp add: s' r search_spotify_def Let_def)
    next
      case yes: True
      show ?thesis
      proof (cases "search_result e")
        case (Inl x)
        with False yes assms(1,2) show ?thesis
          by (simp add: s' r search_spotify_def Let_def log_call_def)
      next
        case (Inr tracks)
        with False yes assms(1,2) show ?thesis
          by (cases tracks)
             (simp_all add: s' r search_spotify_def Let_def log_call_def selectable_def)
      qed
    qed
  qed
qed

text \<open>
  Claim C8 as stated has the current query submitted on every search trigger. Here the
  first file is presented with the query "a" and there is no client: the trigger sends no
  request.
\<close>

theorem search_without_client:
  "query_var no_client_started = Some ''a''
   \<and> strip ''a'' = ''a''
   \<and> results_frame no_client_started = Some []
   \<and> sp no_client_started = False
   \<and> api_log (snd (search_spotify found_env no_client_started)) = []"
  by code_simp

lemma previewing_facts:
  "results_frame previewing = Some [TrackRow song_track, AddButton]"
  "query_var previewing = Some ''a''"
  "search_spotify found_env previewing = (fst (search_spotify found_env previewing), snd (search_spotify found_env previewing))"
  "mixer_music previewing = Some ''/tmp/preview1.mp3''"
  "preview_temp_path previewing = Some ''/tmp/preview1.mp3''"
  "strip ''a'' \<noteq> []"
  "sp previewing"
  "search_result found_env = Inr [song_track]"
  "track_uri song_track = ''spotify:track:1''"
  by code_simp+

lemma blanked_facts:
  "results_frame blanked = Some [TrackRow song_track, AddButton]"
  "query_var blanked = Some ''  ''"
  "search_spotify found_env blanked = (fst (search_spotify found_env blanked), snd (search_spotify found_env blanked))"
  "strip ''  '' = []"
  by code_simp+

text \<open>
  Searching again while a preview plays stops it and selects the top result; searching
  with a blank query clears the earlier results and asks the catalog nothing.
\<close>

theorem search_trigger_witness:
  "mixer_music previewing = Some ''/tmp/preview1.mp3''
   \<and> mixer_music (snd (search_spotify found_env previewing)) = None
   \<and> preview_temp_path (snd (search_spotify found_env previewing)) = None
   \<and> track_var (snd (search_spotify found_env previewing)) = Some ''spotify:track:1''
   \<and> results_frame (snd (search_spotify found_env previewing)) = Some [TrackRow song_track, AddButton]
   \<and> results_frame (snd (search_spotify found_env blanked)) = Some []
   \<and> api_log (snd (search_spotify found_env blanked)) = api_log blanked"
proof -
  note a = search_trigger[OF previewing_facts(1,2,3)]
  note b = search_trigger[OF blanked_facts(1,2,3)]
  from a previewing_facts(6,7,8)
  have "track_var (snd (search_spotify found_env previewing)) = Some (track_uri song_track)
        \<and> results_frame (snd (search_spotify found_env previewing))
            = Some (map TrackRow [song_track] @ [AddButton])"
    by blast
  moreover from a have "mixer_music (snd (search_spotify found_env previewing)) = None
      \<and> preview_temp_path (snd (search_spotify found_env previewing)) = None"
    by blast
  moreover from b blanked_facts(4)
  have "results_frame (snd (search_spotify found_env blanked)) = Some []
        \<and> api_log (snd (search_spotify found_env blanked)) = api_log blanked"
    by blast
  ultimately show ?thesis using previewing_facts(4,9) by simp
qed

section \<open>Catalog errors\<close>

text \<open>
  Claim C5. When the catalog stops answering, the exception of \<open>sp.search\<close> escapes
  \<open>search_spotify\<close>, and the exception of \<open>sp.playlist_add_items\<close> escapes
  \<open>add_to_playlist\<close>: neither handler shows a message box. The failed add leaves the
  cursor and the playlist as they were. "Add by URL" wraps the same request in a
  \<open>try\<close>: there the exception is caught and an error box is shown.
\<close>

theorem catalog_error_escapes:
  "fst (search_spotify net_down_env found_started) = Some SpotifyException
   \<and> messages (snd (search_spotify net_down_env found_started)) = messages found_started
   \<and> fst (add_to_playlist net_down_env found_started) = Some SpotifyException
   \<and> messages (snd (add_to_playlist net_down_env found_started)) = messages found_started
   \<and> current_index (snd (add_to_playlist net_down_env found_started)) = current_index found_started
   \<and> appended (api_log (snd (add_to_playlist net_down_env found_started))) = []
   \<and> fst (add_track_by_url append_fails_env url_typed) = None
   \<and> messages (snd (add_track_by_url append_fails_env url_typed))
       = messages url_typed @ [ShowError ''Invalid URL'']"
  by code_simp

section \<open>Playback and the preview file\<close>

lemma show_file_prompt_disk:
  "preview_temp_path s = None \<Longrightarrow> disk (snd (show_file_prompt e s)) = disk s"
  by (auto simp: show_file_prompt_def search_spotify_def stop_preview_audio_def Let_def
        show_message_def log_call_def split: prod.splits option.splits sum.splits list.splits)

lemma stop_preview_audio_removes:
  assumes "preview_temp_path s = Some p" and "p \<noteq> []" and "remove_result e = None"
  shows "p \<notin> disk (stop_preview_audio e s)"
  using assms by (simp add: stop_preview_audio_def Let_def)

text \<open>
  Claim C9, as amended. The mixer plays one stream at most: stopping the preview or the
  local file leaves none, so does advancing, and so does a search on a presented file;
  starting a preview or the local file leaves at most the stream just started. When a
  preview file is held and the operating system removes it on request, the file is gone
  after the preview is stopped by \<open>stop_preview_audio\<close> (its own Stop button), after
  advancing to the next file, after a search on the presented file, and after another
  preview (downloaded to another name) is started.
\<close>

theorem preview_released:
  "mixer_music (stop_preview_audio e s) = None
   \<and> mixer_music (stop_local_audio s) = None
   \<and> mixer_music (snd (go_to_next_file e s)) = None
   \<and> (results_frame s \<noteq> None \<longrightarrow> mixer_music (snd (search_spotify e s)) = None)
   \<and> (mixer_music (play_spotify_preview url e s) = None \<or>
       mixer_music (play_spotify_preview url e s) = Some (temp_name e))
   \<and> (mixer_music (play_local_audio e s) = None \<or>
       mixer_music (play_local_audio e s) = current_filepath s)
   \<and> (preview_temp_path s = Some p \<and> p \<noteq> [] \<and> remove_result e = None \<longrightarrow>
        p \<notin> disk (stop_preview_audio e s)
        \<and> p \<notin> disk (snd (go_to_next_file e s))
        \<and> (results_frame s \<noteq> None \<longrightarrow> p \<notin> disk (snd (search_spotify e s)))
        \<and> (p \<noteq> temp_name e \<longrightarrow> p \<notin> disk (play_spotify_preview url e s)))"
proof -
  have d: "mixer_music (snd (go_to_next_file e s)) = None"
    by (auto simp: go_to_next_file_def show_file_prompt_def search_spotify_def Let_def
          show_message_def log_call_def split: prod.splits option.splits sum.splits list.splits)
  have d2: "results_frame s \<noteq> None \<longrightarrow> mixer_music (snd (search_spotify e s)) = None"
    by (auto simp: search_spotify_def Let_def log_call_def
          split: option.splits sum.splits list.splits)
  have f: "mixer_music (play_spotify_preview url e s) = None \<or>
           mixer_music (play_spotify_preview url e s) = Some (temp_name e)"
    by (auto simp: play_spotify_preview_def Let_def show_message_def split: option.splits)
  have g: "mixer_music (play_local_audio e s) = None \<or>
           mixer_music (play_local_audio e s) = current_filepath s"
    by (auto simp: play_local_audio_def stop_local_audio_def Let_def show_message_def
          split: option.splits)
  have h: "mixer_music (stop_local_audio s) = None" by (simp add: stop_local_audio_def)
  have rel: "p \<notin> disk (stop_preview_audio e s)
        \<and> p \<notin> disk (snd (go_to_next_file e s))
        \<and> (results_frame s \<noteq> None \<longrightarrow> p \<notin> disk (snd (search_spotify e s)))
        \<and> (p \<noteq> temp_name e \<longrightarrow> p \<notin> disk (play_spotify_preview url e s))"
    if held: "preview_temp_path s = Some p" "p \<noteq> []" "remove_result e = None"
  proof -
    note rm = stop_preview_audio_removes[OF held]
    have a: "p \<notin> disk (snd (go_to_next_file e s))"
    proof -
      have "preview_temp_path (stop_local_audio s) = Some p"
        using held(1) by (simp add: stop_local_audio_def)
      from stop_preview_audio_removes[OF this held(2,3)]
      show ?thesis
        by (simp add: go_to_next_file_def Let_def show_file_prompt_disk)
    qed
    have b: "results_frame s \<noteq> None \<longrightarrow> p \<notin> disk (snd (search_spotify e s))"
      using held
      by (auto simp: search_spotify_def stop_preview_audio_def Let_def log_call_def
            split: option.splits sum.splits list.splits)
    have c: "p \<noteq> temp_name e \<longrightarrow> p \<notin> disk (play_spotify_preview url e s)"
      using rm by (auto simp: play_spotify_preview_def Let_def show_message_def split: option.splits)
    from rm a b c show ?thesis by simp
  qed
  from d d2 f g h rel show ?thesis by simp
qed

text \<open>
  Claim C9 as stated has the preview file gone once the preview is stopped or superseded.
  When the operating system refuses the removal, stopping the preview leaves the file on
  disk and forgets its path. Starting local playback while the preview plays switches the
  mixer to the local file and leaves the preview file where it is. And "Stop local
  playback" silences the preview, which plays on the same mixer, and leaves its file too.
\<close>

theorem preview_file_left_behind:
  "preview_temp_path previewing = Some ''/tmp/preview1.mp3''
   \<and> mixer_music previewing = Some ''/tmp/preview1.mp3''
   \<and> ''/tmp/preview1.mp3'' \<in> disk (stop_preview_audio locked_env previewing)
   \<and> preview_temp_path (stop_preview_audio locked_env previewing) = None
   \<and> mixer_music (play_local_audio quiet_env previewing) = Some ''/music/a.mp3''
   \<and> ''/tmp/preview1.mp3'' \<in> disk (play_local_audio quiet_env previewing)
   \<and> mixer_music (stop_local_audio previewing) = None
   \<and> ''/tmp/preview1.mp3'' \<in> disk (stop_local_audio previewing)"
  by code_simp

lemma previewing_disk:
  "preview_temp_path previewing = Some ''/tmp/preview1.mp3''"
  "''/tmp/preview1.mp3'' \<noteq> []"
  "remove_result quiet_env = None"
  "''/tmp/preview1.mp3'' \<in> disk previewing"
  by code_simp+

text \<open>
  The preview file of the first result exists while it plays, and is gone after the
  preview is stopped or the file advanced.
\<close>

theorem preview_released_witness:
  "''/tmp/preview1.mp3'' \<in> disk previewing
   \<and> ''/tmp/preview1.mp3'' \<notin> disk (stop_preview_audio quiet_env previewing)
   \<and> ''/tmp/preview1.mp3'' \<notin> disk (snd (go_to_next_file quiet_env previewing))
   \<and> mixer_music (snd (go_to_next_file quiet_env previewing)) = None"
  using preview_released[of quiet_env previewing "[]" "''/tmp/preview1.mp3''"]
        previewing_disk
  by simp

end
